theory Spec2Isabelle
  imports Complex_Main "HOL-Library.AList"
begin

section \<open>Python values and errors\<close>

text \<open>
  The agents of \<^verbatim>\<open>agent.py\<close> are Python classes over NumPy arrays and PyTorch modules.
  Every exception the modelled code can raise is a constructor of \<open>py_error\<close>; a function
  that can raise returns \<open>py_error + 'a\<close>, with \<open>Inl\<close> for the exception.
\<close>

datatype py_error =
    ZeroDivisionError
  | ValueError
  | IndexError
  | AxisError
  | FileNotFoundError
  | KeyError
  | AttributeError
  | RuntimeError

section \<open>The base class \<open>Agent\<close>\<close>

text \<open>
  The attributes \<open>Agent.__init__\<close> stores. Python attribute names start with an
  underscore, which an Isabelle name cannot; the underscore is dropped. Integers are
  Python's unbounded \<open>int\<close>.
\<close>

record agent =
  board_size :: int
  n_frames :: int
  buffer_size :: int
  n_actions :: int
  gamma :: real
  use_target_net :: bool
  version :: string

text \<open>\<open>self._input_shape = (self._board_size, self._board_size, self._n_frames)\<close>\<close>

definition input_shape :: "'z agent_scheme \<Rightarrow> int list" where
  "input_shape a = [board_size a, board_size a, n_frames a]"

text \<open>
  \<open>_point_to_row_col\<close> returns \<open>(point // self._board_size, point % self._board_size)\<close>.
  Python's \<open>//\<close> and \<open>%\<close> on integers round towards minus infinity, as \<open>div\<close> and
  \<open>mod\<close> on \<open>int\<close> do, and raise \<open>ZeroDivisionError\<close> for a zero divisor.
\<close>

definition point_to_row_col :: "'z agent_scheme \<Rightarrow> int \<Rightarrow> py_error + int \<times> int" where
  "point_to_row_col a point =
     (if board_size a = 0 then Inl ZeroDivisionError
      else Inr (point div board_size a, point mod board_size a))"

text \<open>\<open>_row_col_to_point\<close> returns \<open>row * self._board_size + col\<close>.\<close>

definition row_col_to_point :: "'z agent_scheme \<Rightarrow> int \<Rightarrow> int \<Rightarrow> int" where
  "row_col_to_point a row col = row * board_size a + col"

section \<open>Floating-point values of NumPy arrays\<close>

text \<open>
  The training code writes \<open>-np.inf\<close> into arrays, so infinities and the IEEE 754
  not-a-number are values of the program. A floating-point array element is a finite
  number, an infinity or NaN; the arithmetic on the special values is IEEE 754's
  (\<open>inf * 0\<close> and \<open>inf - inf\<close> are NaN, NaN propagates). Rounding, overflow and the
  sign of zero are not modelled: a finite value is a real number.
\<close>

datatype npfloat = Fin real | PInf | NInf | NaN

fun fl_neg :: "npfloat \<Rightarrow> npfloat" where
  "fl_neg (Fin x) = Fin (- x)"
| "fl_neg PInf = NInf"
| "fl_neg NInf = PInf"
| "fl_neg NaN = NaN"

fun fl_add :: "npfloat \<Rightarrow> npfloat \<Rightarrow> npfloat" where
  "fl_add NaN y = NaN"
| "fl_add x NaN = NaN"
| "fl_add (Fin x) (Fin y) = Fin (x + y)"
| "fl_add PInf NInf = NaN"
| "fl_add NInf PInf = NaN"
| "fl_add PInf y = PInf"
| "fl_add NInf y = NInf"
| "fl_add (Fin x) y = y"

definition fl_sub :: "npfloat \<Rightarrow> npfloat \<Rightarrow> npfloat" where
  "fl_sub x y = fl_add x (fl_neg y)"

text \<open>The sign of a value: \<open>-1\<close>, \<open>0\<close> or \<open>1\<close>; only used on values other than NaN.\<close>

fun fl_sign :: "npfloat \<Rightarrow> int" where
  "fl_sign (Fin x) = (if x < 0 then - 1 else if x = 0 then 0 else 1)"
| "fl_sign PInf = 1"
| "fl_sign NInf = - 1"
| "fl_sign NaN = 0"

fun fl_mul :: "npfloat \<Rightarrow> npfloat \<Rightarrow> npfloat" where
  "fl_mul NaN y = NaN"
| "fl_mul x NaN = NaN"
| "fl_mul (Fin x) (Fin y) = Fin (x * y)"
| "fl_mul x y =
     (if fl_sign x * fl_sign y = 0 then NaN
      else if fl_sign x * fl_sign y = 1 then PInf else NInf)"

fun fl_abs :: "npfloat \<Rightarrow> npfloat" where
  "fl_abs (Fin x) = Fin \<bar>x\<bar>"
| "fl_abs PInf = PInf"
| "fl_abs NInf = PInf"
| "fl_abs NaN = NaN"

text \<open>\<open>x < y\<close> on floating-point values: false whenever an operand is NaN.\<close>

fun fl_less :: "npfloat \<Rightarrow> npfloat \<Rightarrow> bool" where
  "fl_less NaN y = False"
| "fl_less x NaN = False"
| "fl_less (Fin x) (Fin y) = (x < y)"
| "fl_less x PInf = (x \<noteq> PInf)"
| "fl_less NInf y = (y \<noteq> NInf)"
| "fl_less x y = False"

text \<open>\<open>np.maximum\<close>, the operation \<open>np.max\<close> reduces with: NaN if either operand is.\<close>

fun fl_max :: "npfloat \<Rightarrow> npfloat \<Rightarrow> npfloat" where
  "fl_max NaN y = NaN"
| "fl_max x NaN = NaN"
| "fl_max (Fin x) (Fin y) = Fin (max x y)"
| "fl_max PInf y = PInf"
| "fl_max x PInf = PInf"
| "fl_max NInf y = y"
| "fl_max x NInf = x"

definition is_finite :: "npfloat \<Rightarrow> bool" where
  "is_finite x = (case x of Fin v \<Rightarrow> True | _ \<Rightarrow> False)"

section \<open>Row-wise NumPy operations\<close>

text \<open>
  The sampled batch is a stack of rows, one per transition; along the action axis NumPy
  combines two rows elementwise when they have the same length, stretches a row of length
  one (broadcasting), and raises \<open>ValueError\<close> otherwise.
\<close>

definition broadcast2 :: "('a \<Rightarrow> 'b \<Rightarrow> 'c) \<Rightarrow> 'a list \<Rightarrow> 'b list \<Rightarrow> py_error + 'c list" where
  "broadcast2 f xs ys =
     (if length xs = length ys then Inr (map2 f xs ys)
      else if length xs = 1 then Inr (map (f (hd xs)) ys)
      else if length ys = 1 then Inr (map (\<lambda>x. f x (hd ys)) xs)
      else Inl ValueError)"

text \<open>
  \<open>np.max(row)\<close> (one row of \<open>np.max(..., axis=1)\<close>): an empty row has no maximum and
  raises \<open>ValueError\<close>.
\<close>

fun np_max :: "npfloat list \<Rightarrow> py_error + npfloat" where
  "np_max [] = Inl ValueError"
| "np_max (x # xs) = Inr (foldl fl_max x xs)"

text \<open>
  One row of \<open>np.max(np.where(legal_moves == 1, next_model_outputs, -np.inf), axis=1)\<close>:
  the largest next-state action value among the legal moves.
\<close>

definition where_legal :: "int list \<Rightarrow> npfloat list \<Rightarrow> py_error + npfloat list" where
  "where_legal legal outputs = broadcast2 (\<lambda>l x. if l = 1 then x else NInf) legal outputs"

definition max_legal :: "int list \<Rightarrow> npfloat list \<Rightarrow> py_error + npfloat" where
  "max_legal legal outputs =
     (case where_legal legal outputs of Inl e \<Rightarrow> Inl e | Inr masked \<Rightarrow> np_max masked)"

text \<open>
  One row of
  \<open>discounted_reward = r + (self._gamma * np.max(...).reshape(-1, 1)) * (1 - done)\<close>.
  The reward \<open>r\<close> and the flag \<open>done\<close> are the row's single entries; \<open>1 - done\<close> is
  computed on integers and then multiplied as a floating-point number.
\<close>

definition discounted_reward ::
  "real \<Rightarrow> real \<Rightarrow> int list \<Rightarrow> npfloat list \<Rightarrow> int \<Rightarrow> py_error + npfloat" where
  "discounted_reward gam r legal next_outputs dn =
     (case max_legal legal next_outputs of
        Inl e \<Rightarrow> Inl e
      | Inr m \<Rightarrow> Inr (fl_add (Fin r) (fl_mul (fl_mul (Fin gam) m) (Fin (of_int (1 - dn))))))"

text \<open>
  One row of \<open>target = (1 - a) * target + a * discounted_reward\<close>, where \<open>a\<close> is the
  one-hot row of the action taken, \<open>target\<close> the row of current action values and
  \<open>discounted_reward\<close> the row's single entry.
\<close>

definition regression_target ::
  "int list \<Rightarrow> npfloat list \<Rightarrow> npfloat \<Rightarrow> py_error + npfloat list" where
  "regression_target act current dr =
     (case broadcast2 (\<lambda>ai ci. fl_mul (Fin (of_int (1 - ai))) ci) act current of
        Inl e \<Rightarrow> Inl e
      | Inr kept \<Rightarrow> broadcast2 fl_add kept (map (\<lambda>ai. fl_mul (Fin (of_int ai)) dr) act))"

section \<open>Reward normalization of the actor-critic trainer\<close>





section \<open>NumPy arrays\<close>

text \<open>
  An array element is an integer (the cell codes of a raw board) or a floating-point
  number (after \<open>astype(np.float32)\<close>). Board values are finite; the rounding of a cast
  to \<open>float32\<close> is not modelled.
\<close>

datatype npval = I int | F real

fun to_float :: "npval \<Rightarrow> npval" where
  "to_float (I i) = F (real_of_int i)"
| "to_float (F x) = F x"

text \<open>\<open>x / 4.0\<close>: true division by a floating-point scalar.\<close>

fun div_scalar :: "real \<Rightarrow> npval \<Rightarrow> npval" where
  "div_scalar c (I i) = F (real_of_int i / c)"
| "div_scalar c (F x) = F (x / c)"

text \<open>
  NumPy arrays are objects that share buffers: \<open>reshape\<close> and \<open>rollaxis\<close> return views
  on the buffer of their argument, \<open>copy\<close>, \<open>astype\<close> and arithmetic allocate a new
  buffer. The store is the list of all buffers, addressed by position; an array is a
  buffer address with an offset, a shape and one stride per axis (counted in elements).
\<close>

type_synonym addr = nat

type_synonym npstore = "npval list list"

record ndarray =
  base :: addr
  offset :: nat
  shape :: "nat list"
  strides :: "nat list"

definition ndim :: "ndarray \<Rightarrow> nat" where
  "ndim arr = length (shape arr)"

text \<open>The strides of a C-contiguous (row-major) array of a given shape.\<close>

fun c_strides :: "nat list \<Rightarrow> nat list" where
  "c_strides [] = []"
| "c_strides (d # ds) = prod_list ds # c_strides ds"

text \<open>
  The buffer positions of the elements of a view, in row-major order of their indices:
  the element with index \<open>(i\<^sub>0, i\<^sub>1, \<dots>)\<close> is at \<open>offset + i\<^sub>0 * stride\<^sub>0 + i\<^sub>1 * stride\<^sub>1 + \<dots>\<close>.
\<close>

fun offsets :: "nat \<Rightarrow> nat list \<Rightarrow> nat list \<Rightarrow> nat list" where
  "offsets off [] ss = [off]"
| "offsets off (d # ds) (s # ss) = concat (map (\<lambda>i. offsets (off + i * s) ds ss) [0..<d])"
| "offsets off (d # ds) [] = []"

text \<open>The elements of an array in row-major order (what \<open>arr.flatten()\<close> lists).\<close>

definition gather :: "npstore \<Rightarrow> ndarray \<Rightarrow> npval list" where
  "gather st arr = map (\<lambda>p. st ! base arr ! p) (offsets (offset arr) (shape arr) (strides arr))"

text \<open>\<open>arr[i, j, k]\<close> and \<open>arr[i, j, k, l]\<close> of an array of three and of four axes.\<close>

definition item3 :: "npstore \<Rightarrow> ndarray \<Rightarrow> nat \<Rightarrow> nat \<Rightarrow> nat \<Rightarrow> npval" where
  "item3 st arr i j k =
     st ! base arr ! (offset arr + i * strides arr ! 0 + j * strides arr ! 1 + k * strides arr ! 2)"

definition item4 :: "npstore \<Rightarrow> ndarray \<Rightarrow> nat \<Rightarrow> nat \<Rightarrow> nat \<Rightarrow> nat \<Rightarrow> npval" where
  "item4 st arr i j k l =
     st ! base arr ! (offset arr + i * strides arr ! 0 + j * strides arr ! 1
                        + k * strides arr ! 2 + l * strides arr ! 3)"

text \<open>
  An array of the store: its buffer exists, it has one stride per axis, and every element
  lies inside the buffer. NumPy keeps this true of every array it hands out.
\<close>

definition wf_array :: "npstore \<Rightarrow> ndarray \<Rightarrow> bool" where
  "wf_array st arr =
     (base arr < length st \<and> length (strides arr) = length (shape arr) \<and>
      list_all (\<lambda>p. p < length (st ! base arr)) (offsets (offset arr) (shape arr) (strides arr)))"

text \<open>A new C-contiguous array over a fresh buffer holding the given elements.\<close>

definition new_array :: "nat list \<Rightarrow> npval list \<Rightarrow> npstore \<Rightarrow> ndarray \<times> npstore" where
  "new_array sh xs st =
     (\<lparr>base = length st, offset = 0, shape = sh, strides = c_strides sh\<rparr>, st @ [xs])"

text \<open>\<open>arr.copy()\<close>: a C-contiguous copy in a new buffer.\<close>

definition copy :: "ndarray \<Rightarrow> npstore \<Rightarrow> ndarray \<times> npstore" where
  "copy arr st = new_array (shape arr) (gather st arr) st"

text \<open>\<open>arr.astype(np.float32)\<close>: a new array of the elements cast to floating point.\<close>

definition astype_float32 :: "ndarray \<Rightarrow> npstore \<Rightarrow> ndarray \<times> npstore" where
  "astype_float32 arr st = new_array (shape arr) (map to_float (gather st arr)) st"

text \<open>\<open>arr / c\<close> for a floating-point scalar \<open>c\<close>: a new array of the quotients.\<close>

definition true_divide :: "ndarray \<Rightarrow> real \<Rightarrow> npstore \<Rightarrow> ndarray \<times> npstore" where
  "true_divide arr c st = new_array (shape arr) (map (div_scalar c) (gather st arr)) st"

text \<open>
  The shape \<open>reshape\<close> is asked for, resolved against the number of elements: one entry
  may be \<open>-1\<close> and is then inferred; any other negative entry, two entries \<open>-1\<close>, or a
  shape of another size raise \<open>ValueError\<close>.
\<close>

definition resolve_shape :: "int list \<Rightarrow> nat \<Rightarrow> py_error + nat list" where
  "resolve_shape new n =
     (if list_ex (\<lambda>d. d < - 1) new then Inl ValueError
      else case filter (\<lambda>d. d = - 1) new of
          [] \<Rightarrow> if prod_list new = int n then Inr (map nat new) else Inl ValueError
        | [u] \<Rightarrow>
            (let known = prod_list (filter (\<lambda>d. d \<noteq> - 1) new) in
             if known = 0 then Inl ValueError
             else if int n mod known = 0
               then Inr (map (\<lambda>d. if d = - 1 then nat (int n div known) else nat d) new)
               else Inl ValueError)
        | u # v # others \<Rightarrow> Inl ValueError)"

text \<open>
  \<open>arr.reshape(new)\<close>. The result lists the same elements in the same row-major order
  under the new shape. NumPy returns a view of the argument's buffer whenever the strides
  allow and copies otherwise; the model returns a view for a C-contiguous argument and
  copies otherwise. The two differ only in whether an intermediate array shares a buffer.
\<close>

definition reshape :: "ndarray \<Rightarrow> int list \<Rightarrow> npstore \<Rightarrow> py_error + ndarray \<times> npstore" where
  "reshape arr new st =
     (case resolve_shape new (prod_list (shape arr)) of
        Inl e \<Rightarrow> Inl e
      | Inr sh \<Rightarrow>
          if strides arr = c_strides (shape arr)
          then Inr (arr\<lparr>shape := sh, strides := c_strides sh\<rparr>, st)
          else Inr (new_array sh (gather st arr) st))"

text \<open>
  \<open>np.rollaxis(arr, 3, 1)\<close>: a view with axis 3 moved in front of axis 1, so axes
  \<open>(0, 1, 2, 3, \<dots>)\<close> become \<open>(0, 3, 1, 2, \<dots>)\<close>. An array with fewer than four axes has
  no axis 3: \<open>AxisError\<close>.
\<close>

fun roll_3_1 :: "'a list \<Rightarrow> 'a list" where
  "roll_3_1 (a # b # c # d # others) = a # d # b # c # others"
| "roll_3_1 xs = xs"

definition rollaxis_3_1 :: "ndarray \<Rightarrow> py_error + ndarray" where
  "rollaxis_3_1 arr =
     (if ndim arr < 4 then Inl AxisError
      else Inr (arr\<lparr>shape := roll_3_1 (shape arr), strides := roll_3_1 (strides arr)\<rparr>))"

section \<open>The observation preprocessor of \<open>DeepQLearningAgent\<close>\<close>

text \<open>\<open>_normalize_board\<close> returns \<open>board.astype(np.float32) / 4.0\<close>.\<close>

definition normalize_board :: "ndarray \<Rightarrow> npstore \<Rightarrow> ndarray \<times> npstore" where
  "normalize_board board st =
     (case astype_float32 board st of (casted, st1) \<Rightarrow> true_divide casted 4 st1)"

text \<open>
  \<open>_prepare_input\<close>:
  \<^verbatim>\<open>
  if (board.ndim == 3):
      board = board.reshape((1,) + self._input_shape)
  board = np.rollaxis(board, 3, 1)
  board = self._normalize_board(board.copy())
  return board.copy()
  \<close>
  The function takes the caller's array and the store and returns the new array and the
  store it leaves behind, or the exception raised.
\<close>

definition prepare_input ::
  "'z agent_scheme \<Rightarrow> ndarray \<Rightarrow> npstore \<Rightarrow> py_error + ndarray \<times> npstore" where
  "prepare_input a board st =
     (case (if ndim board = 3 then reshape board (1 # input_shape a) st else Inr (board, st)) of
        Inl e \<Rightarrow> Inl e
      | Inr (board1, st1) \<Rightarrow>
          (case rollaxis_3_1 board1 of
             Inl e \<Rightarrow> Inl e
           | Inr board2 \<Rightarrow>
               (case copy board2 st1 of (board3, st3) \<Rightarrow>
                case normalize_board board3 st3 of (board4, st4) \<Rightarrow>
                  Inr (copy board4 st4))))"

section \<open>Reading an array by index\<close>

text \<open>
  The row-major position of an index in an array of a given shape, and the distance of an
  index from the first element of a view with given strides. They state where
  \<open>offsets\<close> puts each element.
\<close>

fun flat_index :: "nat list \<Rightarrow> nat list \<Rightarrow> nat" where
  "flat_index (d # ds) (i # js) = i * prod_list ds + flat_index ds js"
| "flat_index ds js = 0"

fun dot :: "nat list \<Rightarrow> nat list \<Rightarrow> nat" where
  "dot (i # js) (s # ss) = i * s + dot js ss"
| "dot js ss = 0"

text \<open>
  The view \<open>np.rollaxis(arr, 3, 1)\<close> returns for an array with at least four axes, and
  the last three steps of \<open>_prepare_input\<close> on that view and the store: copy, normalize,
  copy again.
\<close>

definition rolled :: "ndarray \<Rightarrow> ndarray" where
  "rolled arr = arr\<lparr>shape := roll_3_1 (shape arr), strides := roll_3_1 (strides arr)\<rparr>"

definition copy_normalize_copy :: "ndarray \<Rightarrow> npstore \<Rightarrow> ndarray \<times> npstore" where
  "copy_normalize_copy board2 st1 =
     (case copy board2 st1 of (board3, st3) \<Rightarrow>
      case normalize_board board3 st3 of (board4, st4) \<Rightarrow> copy board4 st4)"

section \<open>An example observation\<close>

text \<open>
  An agent for a \<open>2 \<times> 2\<close> board with three frames, a store with one buffer holding the
  cell codes \<open>0, \<dots>, 11\<close>, and two arrays over that buffer: a single observation of shape
  \<open>(2, 2, 3)\<close> and a batch of one of shape \<open>(1, 2, 2, 3)\<close>.
\<close>

definition example_agent :: agent where
  "example_agent = \<lparr>board_size = 2, n_frames = 3, buffer_size = 10, n_actions = 4,
       gamma = 99 / 100, use_target_net = True, version = ''v17.1''\<rparr>"

definition example_store :: npstore where
  "example_store = [[I 0, I 1, I 2, I 3, I 4, I 5, I 6, I 7, I 8, I 9, I 10, I 11]]"

definition example_single :: ndarray where
  "example_single = \<lparr>base = 0, offset = 0, shape = [2, 2, 3], strides = [6, 3, 1]\<rparr>"

definition example_batch :: ndarray where
  "example_batch = \<lparr>base = 0, offset = 0, shape = [1, 2, 2, 3], strides = [12, 6, 3, 1]\<rparr>"

section \<open>PyTorch tensors, modules and state dictionaries\<close>

text \<open>
  A parameter tensor has its values and its gradient \<open>.grad\<close>, which is \<open>None\<close> until a
  backward pass reaches the tensor. Tensors are shared objects: a module, a state
  dictionary and an optimizer can all refer to the same tensor. The heap holds the
  tensors and the dictionary objects, each addressed by position. A tensor's values are
  listed flat; its shape is their number.
\<close>

record tensor =
  data :: "npfloat list"
  grad :: "npfloat list option"

record heap =
  tensors :: "tensor list"
  dicts :: "(string \<times> addr) list list"

text \<open>
  A module is its registered parameters, by name, in registration order. The registry is
  fixed once the module is built; training changes the tensors, not the registry.
\<close>

type_synonym nn_module = "(string \<times> addr) list"

text \<open>The parameter values of a module, by name.\<close>

definition module_params :: "heap \<Rightarrow> nn_module \<Rightarrow> (string \<times> npfloat list) list" where
  "module_params h m = map (\<lambda>(k, p). (k, data (tensors h ! p))) m"

text \<open>
  Building a module allocates one new tensor per parameter, with the initial values the
  random initialization gives and no gradient.
\<close>

definition new_parameters :: "(string \<times> npfloat list) list \<Rightarrow> heap \<Rightarrow> nn_module \<times> heap" where
  "new_parameters init h =
     (zip (map fst init) [length (tensors h)..<length (tensors h) + length init],
      h\<lparr>tensors := tensors h @ map (\<lambda>(k, v). \<lparr>data = v, grad = None\<rparr>) init\<rparr>)"

text \<open>
  \<open>module.state_dict()\<close> returns a new dictionary object on every call; its entries
  refer to the module's parameter tensors. Assigning to a key of that dictionary
  (\<open>d[key] = v\<close>) rebinds the entry of that dictionary object and nothing else.
\<close>

definition state_dict :: "nn_module \<Rightarrow> heap \<Rightarrow> addr \<times> heap" where
  "state_dict m h = (length (dicts h), h\<lparr>dicts := dicts h @ [m]\<rparr>)"

definition dict_keys :: "heap \<Rightarrow> addr \<Rightarrow> string list" where
  "dict_keys h d = map fst (dicts h ! d)"

definition dict_getitem :: "heap \<Rightarrow> addr \<Rightarrow> string \<Rightarrow> py_error + addr" where
  "dict_getitem h d k = (case map_of (dicts h ! d) k of None \<Rightarrow> Inl KeyError | Some v \<Rightarrow> Inr v)"

definition dict_setitem :: "addr \<Rightarrow> string \<Rightarrow> addr \<Rightarrow> heap \<Rightarrow> heap" where
  "dict_setitem d k v h = h\<lparr>dicts := (dicts h)[d := AList.update k v (dicts h ! d)]\<rparr>"

text \<open>
  \<open>module.load_state_dict(sd)\<close> copies, parameter by parameter, the values saved under
  the parameter's name into the parameter's tensor (\<open>param.copy_(input_param)\<close>), skipping
  a parameter whose name is missing or whose saved value has another shape; when a name
  is missing, unexpected or of another shape it then raises \<open>RuntimeError\<close>. It returns the
  heap it leaves behind and the exception raised, if any.
\<close>

definition copy_param :: "(string \<times> npfloat list) list \<Rightarrow> string \<times> addr \<Rightarrow> heap \<Rightarrow> heap" where
  "copy_param sd entry h =
     (case map_of sd (fst entry) of
        None \<Rightarrow> h
      | Some v \<Rightarrow>
          if length v = length (data (tensors h ! snd entry))
          then h\<lparr>tensors := (tensors h)[snd entry := (tensors h ! snd entry)\<lparr>data := v\<rparr>]\<rparr>
          else h)"

definition loadable :: "(string \<times> npfloat list) list \<Rightarrow> heap \<Rightarrow> string \<times> addr \<Rightarrow> bool" where
  "loadable sd h entry =
     (case map_of sd (fst entry) of
        None \<Rightarrow> False
      | Some v \<Rightarrow> length v = length (data (tensors h ! snd entry)))"

definition load_state_dict ::
  "nn_module \<Rightarrow> (string \<times> npfloat list) list \<Rightarrow> heap \<Rightarrow> heap \<times> py_error option" where
  "load_state_dict m sd h =
     (fold (copy_param sd) m h,
      if list_all (loadable sd h) m \<and> list_all (\<lambda>k. k \<in> set (map fst m)) (map fst sd)
      then None else Some RuntimeError)"

section \<open>Saved model files\<close>

text \<open>
  The file system maps a path to the state dictionary saved there. \<open>torch.load(path)\<close>
  raises \<open>FileNotFoundError\<close> when there is no file at the path.
\<close>

type_synonym files = "string \<Rightarrow> (string \<times> npfloat list) list option"

definition torch_load :: "files \<Rightarrow> string \<Rightarrow> py_error + (string \<times> npfloat list) list" where
  "torch_load fs path = (case fs path of None \<Rightarrow> Inl FileNotFoundError | Some sd \<Rightarrow> Inr sd)"

text \<open>
  \<open>"{:04d}".format(i)\<close>: the decimal digits of \<open>i\<close>, zero-padded to four characters,
  the sign of a negative number included.
\<close>

fun digits :: "nat \<Rightarrow> string" where
  "digits n = (if n < 10 then [''0123456789'' ! n]
               else digits (n div 10) @ [''0123456789'' ! (n mod 10)])"

definition zero_pad :: "nat \<Rightarrow> string \<Rightarrow> string" where
  "zero_pad w s = replicate (w - length s) CHR ''0'' @ s"

definition format_04d :: "int \<Rightarrow> string" where
  "format_04d i = (if 0 \<le> i then zero_pad 4 (digits (nat i))
                   else CHR ''-'' # zero_pad 3 (digits (nat (- i))))"

text \<open>\<open>"{}/model_{:04d}<suffix>".format(file_path, iteration)\<close>\<close>

definition model_file :: "string \<Rightarrow> int \<Rightarrow> string \<Rightarrow> string" where
  "model_file file_path iteration suffix =
     file_path @ ''/model_'' @ format_04d iteration @ suffix"

section \<open>The agents' models\<close>

text \<open>
  \<open>DeepQLearningAgent\<close> adds to \<open>Agent\<close> the model, the target network (set only when
  \<open>_use_target_net\<close> holds) and the attribute \<open>optimizer\<close>, an RMSprop optimizer; the
  optimizer keeps the parameter tensors it was built with, and those are all it updates.
\<close>

record dqn_agent = agent +
  model :: nn_module
  target_net :: "nn_module option"
  optimizer :: "addr list"

text \<open>
  \<open>AdvantageActorCriticAgent\<close> holds three more networks of class \<open>AAC_CNN\<close>; its
  \<open>_model\<close> is the logits network.
\<close>

record a2c_agent = dqn_agent +
  full_model :: nn_module
  values_model :: nn_module

text \<open>
  The parameters of \<open>DeepQCNN\<close>, in registration order, and its constructor; \<open>init\<close>
  lists the initial values of the parameters in that order.
\<close>

definition DeepQCNN_keys :: "string list" where
  "DeepQCNN_keys = [''conv1.weight'', ''conv1.bias'', ''conv2.weight'', ''conv2.bias'',
     ''conv3.weight'', ''conv3.bias'', ''fc1.weight'', ''fc1.bias'', ''out.weight'', ''out.bias'']"

definition DeepQCNN :: "npfloat list list \<Rightarrow> heap \<Rightarrow> nn_module \<times> heap" where
  "DeepQCNN init h = new_parameters (zip DeepQCNN_keys init) h"

text \<open>
  \<open>DeepQLearningAgent._agent_model\<close>:
  \<^verbatim>\<open>
  model = DeepQCNN()
  self.optimizer = torch.optim.RMSprop(model.parameters(), lr=0.0005)
  return model
  \<close>
  It returns the new model and rebinds \<open>self.optimizer\<close> to an optimizer over the new
  model's parameters.
\<close>

definition agent_model ::
  "npfloat list list \<Rightarrow> 'z dqn_agent_scheme \<Rightarrow> heap \<Rightarrow> nn_module \<times> 'z dqn_agent_scheme \<times> heap" where
  "agent_model init a h =
     (case DeepQCNN init h of (m, h1) \<Rightarrow> (m, a\<lparr>optimizer := map snd m\<rparr>, h1))"

text \<open>
  \<open>update_target_net\<close>, which \<open>DeepQLearningAgent\<close> and \<open>AdvantageActorCriticAgent\<close>
  define with the same body:
  \<^verbatim>\<open>
  if (self._use_target_net):
      m_dict = self._model.state_dict()
      t_dict = self._target_net.state_dict()
      for key in m_dict.keys():
          t_dict[key] = m_dict[key]
  \<close>
\<close>

fun copy_entries :: "addr \<Rightarrow> addr \<Rightarrow> string list \<Rightarrow> heap \<Rightarrow> py_error + heap" where
  "copy_entries m_dict t_dict [] h = Inr h"
| "copy_entries m_dict t_dict (key # keys) h =
     (case dict_getitem h m_dict key of
        Inl e \<Rightarrow> Inl e
      | Inr v \<Rightarrow> copy_entries m_dict t_dict keys (dict_setitem t_dict key v h))"

definition update_target_net :: "'z dqn_agent_scheme \<Rightarrow> heap \<Rightarrow> py_error + heap" where
  "update_target_net a h =
     (if use_target_net a then
        (case target_net a of
           None \<Rightarrow> Inl AttributeError
         | Some t \<Rightarrow>
             (case state_dict (model a) h of (m_dict, h1) \<Rightarrow>
              case state_dict t h1 of (t_dict, h2) \<Rightarrow>
                copy_entries m_dict t_dict (dict_keys h2 m_dict) h2))
      else Inr h)"

text \<open>
  \<open>DeepQLearningAgent.reset_models\<close>:
  \<^verbatim>\<open>
  self._model = self._agent_model()
  if (self._use_target_net):
      self._target_net = self._agent_model()
      self.update_target_net()
  \<close>
  The two calls of \<open>_agent_model\<close> draw their own random initial values.
\<close>

definition reset_models ::
  "npfloat list list \<Rightarrow> npfloat list list \<Rightarrow> 'z dqn_agent_scheme \<Rightarrow> heap
     \<Rightarrow> py_error + 'z dqn_agent_scheme \<times> heap" where
  "reset_models init_model init_target a h =
     (case agent_model init_model a h of (m, a1, h1) \<Rightarrow>
        if use_target_net a1 then
          (case agent_model init_target (a1\<lparr>model := m\<rparr>) h1 of (t, a2, h2) \<Rightarrow>
             (case update_target_net (a2\<lparr>target_net := Some t\<rparr>) h2 of
                Inl e \<Rightarrow> Inl e
              | Inr h3 \<Rightarrow> Inr (a2\<lparr>target_net := Some t\<rparr>, h3)))
        else Inr (a1\<lparr>model := m\<rparr>, h1))"

section \<open>Loading models\<close>

text \<open>
  \<open>DeepQLearningAgent.load_model\<close>:
  \<^verbatim>\<open>
  if (iteration is not None):
      assert isinstance(iteration, int), "iteration should be an integer"
  else:
      iteration = 0
  self._model.load_state_dict(torch.load("{}/model_{:04d}.pt".format(file_path, iteration)))
  if (self._use_target_net):
      self._target_net.load_state_dict(
          torch.load("{}/model_{:04d}_target.pt".format(file_path, iteration)))
  \<close>
  An exception leaves the heap as the statements before it made it; the function returns
  that heap and the exception, if any. The iteration is an integer by its type.
\<close>

definition load_into ::
  "nn_module \<Rightarrow> files \<Rightarrow> string \<Rightarrow> heap \<Rightarrow> heap \<times> py_error option" where
  "load_into m fs path h =
     (case torch_load fs path of Inl e \<Rightarrow> (h, Some e) | Inr sd \<Rightarrow> load_state_dict m sd h)"

definition load_model ::
  "'z dqn_agent_scheme \<Rightarrow> files \<Rightarrow> string \<Rightarrow> int option \<Rightarrow> heap \<Rightarrow> heap \<times> py_error option" where
  "load_model a fs file_path iteration h =
     (let it = (case iteration of None \<Rightarrow> 0 | Some i \<Rightarrow> i) in
      case load_into (model a) fs (model_file file_path it ''.pt'') h of
        (h1, Some e) \<Rightarrow> (h1, Some e)
      | (h1, None) \<Rightarrow>
          if use_target_net a then
            (case target_net a of
               None \<Rightarrow> (h1, Some AttributeError)
             | Some t \<Rightarrow> load_into t fs (model_file file_path it ''_target.pt'') h1)
          else (h1, None))"

text \<open>
  \<open>AdvantageActorCriticAgent.load_model\<close> loads \<open>model_XXXX.pt\<close> and
  \<open>model_XXXX_full.pt\<close>, and with a target network also \<open>model_XXXX_values.pt\<close> and
  \<open>model_XXXX_target.pt\<close>, in this order.
\<close>

definition a2c_load_model ::
  "'z a2c_agent_scheme \<Rightarrow> files \<Rightarrow> string \<Rightarrow> int option \<Rightarrow> heap \<Rightarrow> heap \<times> py_error option" where
  "a2c_load_model a fs file_path iteration h =
     (let it = (case iteration of None \<Rightarrow> 0 | Some i \<Rightarrow> i) in
      case load_into (model a) fs (model_file file_path it ''.pt'') h of
        (h1, Some e) \<Rightarrow> (h1, Some e)
      | (h1, None) \<Rightarrow>
          (case load_into (full_model a) fs (model_file file_path it ''_full.pt'') h1 of
             (h2, Some e) \<Rightarrow> (h2, Some e)
           | (h2, None) \<Rightarrow>
               if use_target_net a then
                 (case load_into (values_model a) fs (model_file file_path it ''_values.pt'') h2 of
                    (h3, Some e) \<Rightarrow> (h3, Some e)
                  | (h3, None) \<Rightarrow>
                      (case target_net a of
                         None \<Rightarrow> (h3, Some AttributeError)
                       | Some t \<Rightarrow> load_into t fs (model_file file_path it ''_target.pt'') h3))
               else (h2, None)))"

section \<open>The Huber loss\<close>

text \<open>
  \<open>huber_loss\<close> on one pair of elements, with \<open>torch.where(torch.abs(error) < delta,
  quad_error, lin_error)\<close>, and \<open>torch.mean\<close> over all elements (NaN for none).
\<close>

definition huber_loss :: "npfloat \<Rightarrow> npfloat \<Rightarrow> real \<Rightarrow> npfloat" where
  "huber_loss y_true y_pred delta =
     (let error = fl_sub y_true y_pred;
          quad_error = fl_mul (Fin (1 / 2)) (fl_mul error error);
          lin_error = fl_mul (Fin delta) (fl_sub (fl_abs error) (Fin (1 / 2 * delta)))
      in if fl_less (fl_abs error) (Fin delta) then quad_error else lin_error)"

definition torch_mean :: "npfloat list \<Rightarrow> npfloat" where
  "torch_mean xs =
     (if xs = [] then NaN else fl_mul (foldl fl_add (Fin 0) xs) (Fin (1 / real (length xs))))"

text \<open>
  \<open>mean_huber_loss\<close> of two batches of rows. The model output and the target of
  \<open>train_agent\<close> have the same shape; tensors of different shapes raise \<open>RuntimeError\<close>
  (broadcasting of tensors is not modelled).
\<close>

definition mean_huber_loss ::
  "npfloat list list \<Rightarrow> npfloat list list \<Rightarrow> real \<Rightarrow> py_error + npfloat" where
  "mean_huber_loss y_true y_pred delta =
     (if map length y_true = map length y_pred
      then Inr (torch_mean (concat (map2 (map2 (\<lambda>t p. huber_loss t p delta)) y_true y_pred)))
      else Inl RuntimeError)"

section \<open>The Q-learning trainer\<close>

text \<open>
  An array as a value: its shape and its elements in row-major order. \<open>prepared\<close> is
  \<open>_prepare_input\<close> on such a value: the preprocessor run on a store that holds the
  array, and the elements of its result.
\<close>

record ndvalue =
  vshape :: "nat list"
  velems :: "npval list"

definition prepared :: "'z agent_scheme \<Rightarrow> ndvalue \<Rightarrow> py_error + ndvalue" where
  "prepared a v =
     (case prepare_input a
             \<lparr>base = 0, offset = 0, shape = vshape v, strides = c_strides (vshape v)\<rparr> [velems v] of
        Inl e \<Rightarrow> Inl e
      | Inr (out, st) \<Rightarrow> Inr \<lparr>vshape = shape out, velems = gather st out\<rparr>)"

text \<open>
  The forward pass of a network is PyTorch's: a function from the parameter values and
  the preprocessed batch to one row of action values per observation. It is a parameter
  of the model, as are the gradient of the loss with respect to each named parameter
  (what \<open>loss.backward()\<close> computes) and the update RMSprop makes of a parameter from
  its gradient.
\<close>

type_synonym network = "(string \<times> npfloat list) list \<Rightarrow> ndvalue \<Rightarrow> npfloat list list"

type_synonym gradients =
  "(string \<times> npfloat list) list \<Rightarrow> ndvalue \<Rightarrow> npfloat list list \<Rightarrow> string \<Rightarrow> npfloat list"

type_synonym update_rule = "npfloat list \<Rightarrow> npfloat list \<Rightarrow> npfloat list"

text \<open>
  \<open>_get_model_outputs(board, model=None)\<close>:
  \<^verbatim>\<open>
  board = torch.Tensor(self._prepare_input(board))
  if model is None:
      model = self._model
  return model(board).detach().numpy()
  \<close>
\<close>

definition get_model_outputs ::
  "network \<Rightarrow> 'z dqn_agent_scheme \<Rightarrow> heap \<Rightarrow> ndvalue \<Rightarrow> nn_module option
     \<Rightarrow> py_error + npfloat list list" where
  "get_model_outputs net a h board m =
     (case prepared a board of
        Inl e \<Rightarrow> Inl e
      | Inr x \<Rightarrow> Inr (net (module_params h (case m of None \<Rightarrow> model a | Some m' \<Rightarrow> m')) x))"

text \<open>
  A sample of the replay buffer: six aligned arrays with one row per transition. The
  states are arrays of shape \<open>(batch, board, board, frames)\<close>; the reward and the flag
  \<open>done\<close> are single entries of their rows.
\<close>

record batch =
  batch_s :: ndvalue
  batch_a :: "int list list"
  batch_r :: "real list"
  batch_next_s :: ndvalue
  batch_done :: "int list"
  batch_legal_moves :: "int list list"

text \<open>The rows of a batch are computed one by one; the first exception is the result.\<close>

fun sequence_rows :: "(py_error + 'a) list \<Rightarrow> py_error + 'a list" where
  "sequence_rows [] = Inr []"
| "sequence_rows (Inl e # rs) = Inl e"
| "sequence_rows (Inr x # rs) =
     (case sequence_rows rs of Inl e \<Rightarrow> Inl e | Inr xs \<Rightarrow> Inr (x # xs))"

text \<open>
  The discounted rewards and the regression targets of a batch, row by row; arrays with
  different numbers of rows raise \<open>ValueError\<close>.
\<close>

definition discounted_rewards ::
  "real \<Rightarrow> real list \<Rightarrow> int list list \<Rightarrow> npfloat list list \<Rightarrow> int list
     \<Rightarrow> py_error + npfloat list" where
  "discounted_rewards gam r legal next_outputs dn =
     (if length r = length next_outputs \<and> length legal = length next_outputs
         \<and> length dn = length next_outputs
      then sequence_rows
             (map (\<lambda>i. discounted_reward gam (r ! i) (legal ! i) (next_outputs ! i) (dn ! i))
                [0..<length next_outputs])
      else Inl ValueError)"

definition regression_targets ::
  "int list list \<Rightarrow> npfloat list list \<Rightarrow> npfloat list \<Rightarrow> py_error + npfloat list list" where
  "regression_targets act current dr =
     (if length act = length current \<and> length dr = length current
      then sequence_rows
             (map (\<lambda>i. regression_target (act ! i) (current ! i) (dr ! i)) [0..<length current])
      else Inl ValueError)"

text \<open>
  The optimizer: \<open>zero_grad()\<close> resets the gradient of each of its parameters,
  \<open>step()\<close> updates each of its parameters that has a gradient and skips the others.
  \<open>loss.backward()\<close> adds the gradient of the loss to \<open>.grad\<close> of every parameter the
  loss was computed from, which are the parameters of \<open>self._model\<close>.
\<close>

definition zero_grad :: "addr list \<Rightarrow> heap \<Rightarrow> heap" where
  "zero_grad ps h =
     fold (\<lambda>p h'. h'\<lparr>tensors := (tensors h')[p := (tensors h' ! p)\<lparr>grad := None\<rparr>]\<rparr>) ps h"

definition backward :: "(string \<Rightarrow> npfloat list) \<Rightarrow> nn_module \<Rightarrow> heap \<Rightarrow> heap" where
  "backward g m h =
     fold (\<lambda>entry h'. h'\<lparr>tensors := (tensors h')[snd entry := (tensors h' ! snd entry)
             \<lparr>grad := Some (case grad (tensors h' ! snd entry) of
                              None \<Rightarrow> g (fst entry)
                            | Some old \<Rightarrow> map2 fl_add old (g (fst entry)))\<rparr>]\<rparr>) m h"

definition step :: "update_rule \<Rightarrow> addr list \<Rightarrow> heap \<Rightarrow> heap" where
  "step upd ps h =
     fold (\<lambda>p h'. case grad (tensors h' ! p) of
                     None \<Rightarrow> h'
                   | Some g \<Rightarrow> h'\<lparr>tensors := (tensors h')[p := (tensors h' ! p)
                                    \<lparr>data := upd (data (tensors h' ! p)) g\<rparr>]\<rparr>) ps h"

text \<open>
  \<open>DeepQLearningAgent.train_agent\<close>, given the sample the buffer returned:
  \<^verbatim>\<open>
  criterion = mean_huber_loss
  optimizer = torch.optim.RMSprop(self._model.parameters(), lr=0.0005)
  s, a, r, next_s, done, legal_moves = self._buffer.sample(batch_size)
  if (reward_clip):
      r = np.sign(r)
  current_model = self._target_net if self._use_target_net else self._model
  next_model_outputs = self._get_model_outputs(next_s, current_model)
  discounted_reward = r + \
      (self._gamma * np.max(np.where(legal_moves == 1, next_model_outputs, -np.inf),
                            axis=1).reshape(-1, 1)) * (1 - done)
  target = self._get_model_outputs(s)
  target = (1 - a) * target + a * discounted_reward
  loss = criterion(torch.Tensor(self._model(torch.Tensor(self._prepare_input(s)))),
                   torch.Tensor(target))
  self.optimizer.zero_grad()
  loss.backward()
  self.optimizer.step()
  return loss.detach().numpy()
  \<close>
  The local \<open>optimizer\<close> is built and never used; the optimizer that is stepped is the
  attribute \<open>self.optimizer\<close>. The function returns the loss and the heap it leaves, or
  the exception raised before the optimizer is reached.
\<close>

definition train_agent ::
  "network \<Rightarrow> gradients \<Rightarrow> update_rule \<Rightarrow> batch \<Rightarrow> bool \<Rightarrow> 'z dqn_agent_scheme \<Rightarrow> heap
     \<Rightarrow> py_error + npfloat \<times> heap" where
  "train_agent net gradient upd b reward_clip a h =
     (let r = (if reward_clip then map sgn (batch_r b) else batch_r b) in
      case (if use_target_net a
            then (case target_net a of None \<Rightarrow> Inl AttributeError | Some t \<Rightarrow> Inr t)
            else Inr (model a)) of
        Inl e \<Rightarrow> Inl e
      | Inr current_model \<Rightarrow>
      case get_model_outputs net a h (batch_next_s b) (Some current_model) of
        Inl e \<Rightarrow> Inl e
      | Inr next_model_outputs \<Rightarrow>
      case discounted_rewards (gamma a) r (batch_legal_moves b) next_model_outputs (batch_done b) of
        Inl e \<Rightarrow> Inl e
      | Inr dr \<Rightarrow>
      case get_model_outputs net a h (batch_s b) None of
        Inl e \<Rightarrow> Inl e
      | Inr current \<Rightarrow>
      case regression_targets (batch_a b) current dr of
        Inl e \<Rightarrow> Inl e
      | Inr target \<Rightarrow>
      case prepared a (batch_s b) of
        Inl e \<Rightarrow> Inl e
      | Inr x \<Rightarrow>
      case mean_huber_loss (net (module_params h (model a)) x) target 1 of
        Inl e \<Rightarrow> Inl e
      | Inr loss \<Rightarrow>
          Inr (loss,
               step upd (optimizer a)
                 (backward (gradient (module_params h (model a)) x target) (model a)
                    (zero_grad (optimizer a) h))))"

section \<open>Example agents, heaps and files\<close>

text \<open>
  A Q-learning agent and an actor-critic agent whose networks have the single parameter
  \<open>out.weight\<close>; a heap of tensors with one value each; and a directory in which exactly
  the listed files exist, each holding the value \<open>10\<close> for \<open>out.weight\<close>.
\<close>

definition example_dqn :: dqn_agent where
  "example_dqn = \<lparr>board_size = 2, n_frames = 3, buffer_size = 10, n_actions = 4,
       gamma = 99 / 100, use_target_net = True, version = ''v17.1'',
       model = [(''out.weight'', 0)], target_net = Some [(''out.weight'', 1)], optimizer = [1]\<rparr>"

definition example_a2c :: a2c_agent where
  "example_a2c = \<lparr>board_size = 2, n_frames = 3, buffer_size = 10, n_actions = 4,
       gamma = 99 / 100, use_target_net = True, version = ''v17.1'',
       model = [(''out.weight'', 0)], target_net = Some [(''out.weight'', 3)], optimizer = [3],
       full_model = [(''out.weight'', 1)], values_model = [(''out.weight'', 2)]\<rparr>"

definition example_tensors :: "real list \<Rightarrow> heap" where
  "example_tensors xs = \<lparr>tensors = map (\<lambda>x. \<lparr>data = [Fin x], grad = None\<rparr>) xs, dicts = []\<rparr>"

definition example_saved :: "string list \<Rightarrow> files" where
  "example_saved paths =
     (\<lambda>path. if path \<in> set paths then Some [(''out.weight'', [Fin 10])] else None)"

text \<open>
  A run of the Q-learning trainer: an agent before \<open>reset_models\<close>, a network whose
  four action values are the first values of its first four parameters, a loss gradient
  of one for every parameter, the update \<open>p - 0.0005 * g\<close>, a sample of one transition,
  and the agent and the heaps the run goes through.
\<close>

definition example_dqn0 :: dqn_agent where
  "example_dqn0 = \<lparr>board_size = 2, n_frames = 3, buffer_size = 10, n_actions = 4,
       gamma = 99 / 100, use_target_net = True, version = ''v17.1'',
       model = [], target_net = None, optimizer = []\<rparr>"

definition example_net :: network where
  "example_net = (\<lambda>params x. [map (\<lambda>e. hd (snd e)) (take 4 params)])"

definition example_gradient :: gradients where
  "example_gradient = (\<lambda>params x target k. [Fin 1])"

definition example_rule :: update_rule where
  "example_rule = (\<lambda>d g. map2 (\<lambda>x y. fl_sub x (fl_mul (Fin (1 / 2000)) y)) d g)"

definition example_sample :: batch where
  "example_sample =
     \<lparr>batch_s = \<lparr>vshape = [1, 2, 2, 3],
                 velems = [I 0, I 1, I 2, I 3, I 4, I 0, I 1, I 2, I 3, I 4, I 0, I 1]\<rparr>,
      batch_a = [[0, 1, 0, 0]],
      batch_r = [1],
      batch_next_s = \<lparr>vshape = [1, 2, 2, 3],
                 velems = [I 1, I 2, I 3, I 4, I 0, I 1, I 2, I 3, I 4, I 0, I 1, I 2]\<rparr>,
      batch_done = [0],
      batch_legal_moves = [[1, 1, 1, 0]]\<rparr>"

definition example_trained_agent :: dqn_agent where
  "example_trained_agent = example_dqn0
     \<lparr>model := zip DeepQCNN_keys [0..<10], target_net := Some (zip DeepQCNN_keys [10..<20]),
      optimizer := [10..<20]\<rparr>"

definition example_trained_heap :: heap where
  "example_trained_heap =
     \<lparr>tensors = map (\<lambda>x. \<lparr>data = [Fin x], grad = None\<rparr>) (replicate 10 1 @ replicate 10 2),
      dicts = [zip DeepQCNN_keys [0..<10], zip DeepQCNN_keys [0..<10]]\<rparr>"

definition example_heap_after :: heap where
  "example_heap_after =
     \<lparr>tensors = replicate 10 \<lparr>data = [Fin 1], grad = Some [Fin 1]\<rparr>
                 @ replicate 10 \<lparr>data = [Fin 2], grad = None\<rparr>,
      dicts = [zip DeepQCNN_keys [0..<10], zip DeepQCNN_keys [0..<10]]\<rparr>"

section \<open>Coordinate conversions\<close>

text \<open>
  Claim C10. For a board size \<open>S \<ge> 1\<close>, converting a cell \<open>(row, col)\<close> with
  \<open>0 \<le> row < S\<close> and \<open>0 \<le> col < S\<close> to a point and back returns \<open>(row, col)\<close>, and
  converting a point \<open>0 \<le> point < S\<^sup>2\<close> to a cell and back returns the point; neither
  conversion raises.
\<close>

theorem coordinate_conversions_inverse:
  assumes "1 \<le> board_size a"
  shows "(0 \<le> row \<and> row < board_size a \<and> 0 \<le> col \<and> col < board_size a \<longrightarrow>
            point_to_row_col a (row_col_to_point a row col) = Inr (row, col))
       \<and> (0 \<le> point \<and> point < board_size a * board_size a \<longrightarrow>
            (\<exists>r c. point_to_row_col a point = Inr (r, c)
                 \<and> 0 \<le> r \<and> r < board_size a \<and> 0 \<le> c \<and> c < board_size a
                 \<and> row_col_to_point a r c = point))"
proof (intro conjI impI)
  assume rc: "0 \<le> row \<and> row < board_size a \<and> 0 \<le> col \<and> col < board_size a"
  from assms have nz: "board_size a \<noteq> 0" by simp
  from rc have "(row * board_size a + col) div board_size a = row"
    and "(row * board_size a + col) mod board_size a = col"
    using nz by simp_all
  with nz show "point_to_row_col a (row_col_to_point a row col) = Inr (row, col)"
    by (simp add: point_to_row_col_def row_col_to_point_def)
next
  assume p: "0 \<le> point \<and> point < board_size a * board_size a"
  from assms have pos: "0 < board_size a" by simp
  have lo: "0 \<le> point div board_size a"
    using p pos by (simp add: pos_imp_zdiv_nonneg_iff)
  have hi: "point div board_size a < board_size a"
  proof (rule ccontr)
    assume "\<not> point div board_size a < board_size a"
    then have "board_size a \<le> point div board_size a" by simp
    with pos have "board_size a * board_size a \<le> board_size a * (point div board_size a)"
      by (simp add: mult_left_mono)
    moreover have "board_size a * (point div board_size a) + point mod board_size a = point"
      by simp
    moreover have "0 \<le> point mod board_size a" using pos by simp
    ultimately show False using p by linarith
  qed
  have m: "0 \<le> point mod board_size a \<and> point mod board_size a < board_size a"
    using pos by simp
  show "\<exists>r c. point_to_row_col a point = Inr (r, c)
          \<and> 0 \<le> r \<and> r < board_size a \<and> 0 \<le> c \<and> c < board_size a
          \<and> row_col_to_point a r c = point"
    using pos lo hi m by (simp add: point_to_row_col_def row_col_to_point_def)
qed

theorem coordinate_conversions_inverse_witness:
  "point_to_row_col \<lparr>board_size = 10, n_frames = 2, buffer_size = 10000, n_actions = 4,
       gamma = 99 / 100, use_target_net = True, version = ''v17.1''\<rparr>
     (row_col_to_point \<lparr>board_size = 10, n_frames = 2, buffer_size = 10000, n_actions = 4,
       gamma = 99 / 100, use_target_net = True, version = ''v17.1''\<rparr> 3 7) = Inr (3, 7)
   \<and> (\<exists>r c. point_to_row_col \<lparr>board_size = 10, n_frames = 2, buffer_size = 10000,
         n_actions = 4, gamma = 99 / 100, use_target_net = True, version = ''v17.1''\<rparr> 37
           = Inr (r, c)
        \<and> 0 \<le> r \<and> r < 10 \<and> 0 \<le> c \<and> c < 10
        \<and> row_col_to_point \<lparr>board_size = 10, n_frames = 2, buffer_size = 10000,
         n_actions = 4, gamma = 99 / 100, use_target_net = True, version = ''v17.1''\<rparr> r c = 37)"
  using coordinate_conversions_inverse
    [of "\<lparr>board_size = 10, n_frames = 2, buffer_size = 10000, n_actions = 4,
       gamma = 99 / 100, use_target_net = True, version = ''v17.1''\<rparr>" 3 7 37]
  by simp

section \<open>Masked maximum over the next-state action values\<close>

lemma fl_max_cases: "fl_max x y = x \<or> fl_max x y = y"
  by (cases x; cases y) (auto simp: max_def)

lemma foldl_fl_max_mem: "foldl fl_max x xs \<in> set (x # xs)"
proof (induction xs arbitrary: x)
  case Nil
  then show ?case by simp
next
  case (Cons y ys)
  have "foldl fl_max (fl_max x y) ys \<in> set (fl_max x y # ys)" by (rule Cons.IH)
  then show ?case using fl_max_cases [of x y] by auto
qed

lemma fl_max_NInf: "fl_max x y = NInf \<Longrightarrow> x = NInf \<and> y = NInf"
  by (cases x; cases y) auto

lemma foldl_fl_max_NInf: "foldl fl_max x xs = NInf \<Longrightarrow> \<forall>y \<in> set (x # xs). y = NInf"
proof (induction xs arbitrary: x)
  case Nil
  then show ?case by simp
next
  case (Cons y ys)
  from Cons.prems have "foldl fl_max (fl_max x y) ys = NInf" by simp
  from Cons.IH [OF this] have "fl_max x y = NInf" and "\<forall>z \<in> set ys. z = NInf" by simp_all
  then show ?case using fl_max_NInf [of x y] by auto
qed

lemma np_max_mem: "np_max xs = Inr m \<Longrightarrow> m \<in> set xs"
proof (cases xs)
  case Nil
  assume "np_max xs = Inr m"
  with Nil show ?thesis by simp
next
  case (Cons y ys)
  assume "np_max xs = Inr m"
  with Cons have "m = foldl fl_max y ys" by simp
  with Cons show ?thesis using foldl_fl_max_mem [of y ys] by simp
qed

lemma np_max_NInf: "np_max xs = Inr NInf \<Longrightarrow> \<forall>y \<in> set xs. y = NInf"
proof (cases xs)
  case Nil
  then show ?thesis by simp
next
  case (Cons y ys)
  assume "np_max xs = Inr NInf"
  with Cons have "foldl fl_max y ys = NInf" by simp
  from foldl_fl_max_NInf [OF this] Cons show ?thesis by simp
qed

lemma np_max_nonempty: "xs \<noteq> [] \<Longrightarrow> \<exists>m. np_max xs = Inr m"
  by (cases xs) auto

lemma where_legal_same_length:
  "length legal = length outputs \<Longrightarrow>
   where_legal legal outputs = Inr (map2 (\<lambda>l x. if l = 1 then x else NInf) legal outputs)"
  by (simp add: where_legal_def broadcast2_def)

lemma max_legal_is_legal:
  assumes len: "length legal = length outputs"
    and ex: "\<exists>j<length legal. legal ! j = 1"
  shows "\<exists>m. max_legal legal outputs = Inr m
           \<and> (\<exists>j<length outputs. legal ! j = 1 \<and> m = outputs ! j)"
proof -
  let ?masked = "map2 (\<lambda>l x. if l = 1 then x else NInf) legal outputs"
  from ex obtain j0 where j0: "j0 < length legal" "legal ! j0 = 1" by blast
  have lm: "length ?masked = length outputs" using len by simp
  with j0 len have ne: "?masked \<noteq> []" by auto
  then obtain m where m: "np_max ?masked = Inr m" using np_max_nonempty by blast
  have ml: "max_legal legal outputs = Inr m"
    using m len by (simp add: max_legal_def where_legal_same_length)
  from np_max_mem [OF m] obtain j where j: "j < length ?masked" "?masked ! j = m"
    by (auto simp: in_set_conv_nth)
  have nthj: "\<And>k. k < length outputs \<Longrightarrow> ?masked ! k = (if legal ! k = 1 then outputs ! k else NInf)"
    using len by simp
  show ?thesis
  proof (cases "legal ! j = 1")
    case True
    from j lm have jl: "j < length outputs" by simp
    from nthj [OF jl] True j have "m = outputs ! j" by simp
    with jl True have "j < length outputs \<and> legal ! j = 1 \<and> m = outputs ! j" by simp
    then have "\<exists>j<length outputs. legal ! j = 1 \<and> m = outputs ! j" by (rule exI)
    with ml show ?thesis by simp
  next
    case False
    from j lm have jl: "j < length outputs" by simp
    from nthj [OF jl] False j have mN: "m = NInf" by simp
    with m have "np_max ?masked = Inr NInf" by simp
    then have all: "\<forall>y \<in> set ?masked. y = NInf" by (rule np_max_NInf)
    from j0 len have j0l: "j0 < length outputs" by simp
    with lm have "j0 < length ?masked" by simp
    then have "?masked ! j0 \<in> set ?masked" by (rule nth_mem)
    with all have "?masked ! j0 = NInf" by (rule bspec)
    with nthj [OF j0l] j0 have "outputs ! j0 = NInf" by simp
    with mN j0 j0l have "j0 < length outputs \<and> legal ! j0 = 1 \<and> m = outputs ! j0" by simp
    then have "\<exists>j<length outputs. legal ! j = 1 \<and> m = outputs ! j" by (rule exI)
    with ml show ?thesis by simp
  qed
qed

lemma where_legal_cong:
  assumes l1: "length outputs' = length outputs"
    and ag: "\<forall>j<length outputs. legal ! j = 1 \<longrightarrow> outputs' ! j = outputs ! j"
    and l2: "length legal = length outputs"
  shows "where_legal legal outputs' = where_legal legal outputs"
proof -
  have "map2 (\<lambda>l x. if l = 1 then x else NInf) legal outputs'
      = map2 (\<lambda>l x. if l = 1 then x else NInf) legal outputs"
  proof (rule nth_equalityI)
    show "length (map2 (\<lambda>l x. if l = 1 then x else NInf) legal outputs')
        = length (map2 (\<lambda>l x. if l = 1 then x else NInf) legal outputs)"
      using l1 l2 by simp
  next
    fix i
    assume "i < length (map2 (\<lambda>l x. if l = 1 then x else NInf) legal outputs')"
    then have i: "i < length outputs" using l1 l2 by simp
    then show "map2 (\<lambda>l x. if l = 1 then x else NInf) legal outputs' ! i
             = map2 (\<lambda>l x. if l = 1 then x else NInf) legal outputs ! i"
      using l1 l2 ag by simp
  qed
  then show ?thesis using l1 l2 by (simp add: where_legal_same_length)
qed

text \<open>
  Claim C4. For a row of the legal-move mask with at least one entry equal to one, the
  masked maximum \<open>np.max(np.where(legal_moves == 1, next_model_outputs, -np.inf))\<close> is
  the output of a legal action, and it does not depend on the outputs of the illegal
  actions: replacing them by any other values, however large, leaves it unchanged. (That
  the mask also has a zero is not needed.)
\<close>

theorem bootstrap_max_never_illegal:
  assumes "length legal = length outputs"
    and "\<exists>j<length legal. legal ! j = 1"
  shows "\<exists>m. max_legal legal outputs = Inr m
     \<and> (\<exists>j<length outputs. legal ! j = 1 \<and> m = outputs ! j)
     \<and> (\<forall>outputs'. length outputs' = length outputs
            \<and> (\<forall>j<length outputs. legal ! j = 1 \<longrightarrow> outputs' ! j = outputs ! j)
          \<longrightarrow> max_legal legal outputs' = Inr m)"
proof -
  from max_legal_is_legal [OF assms] obtain m where
    m: "max_legal legal outputs = Inr m"
    and j: "\<exists>j<length outputs. legal ! j = 1 \<and> m = outputs ! j"
    by auto
  have "\<forall>outputs'. length outputs' = length outputs
            \<and> (\<forall>j<length outputs. legal ! j = 1 \<longrightarrow> outputs' ! j = outputs ! j)
          \<longrightarrow> max_legal legal outputs' = Inr m"
  proof (intro allI impI)
    fix outputs'
    assume h: "length outputs' = length outputs
            \<and> (\<forall>j<length outputs. legal ! j = 1 \<longrightarrow> outputs' ! j = outputs ! j)"
    then have "where_legal legal outputs' = where_legal legal outputs"
      using assms(1) where_legal_cong [of outputs' outputs legal] by simp
    with m show "max_legal legal outputs' = Inr m" by (simp add: max_legal_def)
  qed
  with m j show ?thesis by simp
qed

theorem bootstrap_max_never_illegal_witness:
  "\<exists>m. max_legal [0, 1, 1, 0] [Fin 9, Fin 1, Fin 2, Fin 7] = Inr m
     \<and> (\<exists>j<length [Fin 9, Fin 1, Fin 2, Fin 7].
            [0, 1, 1, 0 :: int] ! j = 1 \<and> m = [Fin 9, Fin 1, Fin 2, Fin 7] ! j)
     \<and> max_legal [0, 1, 1, 0] [Fin 100, Fin 1, Fin 2, Fin 50] = Inr m"
proof -
  have len: "length [0, 1, 1, 0 :: int] = length [Fin 9, Fin 1, Fin 2, Fin 7]" by simp
  have "(1::nat) < length [0, 1, 1, 0 :: int] \<and> [0, 1, 1, 0 :: int] ! 1 = 1" by simp
  then have ex: "\<exists>j<length [0, 1, 1, 0 :: int]. [0, 1, 1, 0 :: int] ! j = 1" by (rule exI)
  from bootstrap_max_never_illegal [OF len ex] obtain m where
    m: "max_legal [0, 1, 1, 0] [Fin 9, Fin 1, Fin 2, Fin 7] = Inr m"
    and j: "\<exists>j<length [Fin 9, Fin 1, Fin 2, Fin 7].
              [0, 1, 1, 0 :: int] ! j = 1 \<and> m = [Fin 9, Fin 1, Fin 2, Fin 7] ! j"
    and a: "\<forall>outputs'. length outputs' = length [Fin 9, Fin 1, Fin 2, Fin 7]
            \<and> (\<forall>j<length [Fin 9, Fin 1, Fin 2, Fin 7].
                  [0, 1, 1, 0 :: int] ! j = 1 \<longrightarrow> outputs' ! j = [Fin 9, Fin 1, Fin 2, Fin 7] ! j)
          \<longrightarrow> max_legal [0, 1, 1, 0] outputs' = Inr m"
    by blast
  have "\<forall>j<length [Fin 9, Fin 1, Fin 2, Fin 7].
          [0, 1, 1, 0 :: int] ! j = 1 \<longrightarrow>
          [Fin 100, Fin 1, Fin 2, Fin 50] ! j = [Fin 9, Fin 1, Fin 2, Fin 7] ! j"
    by (simp add: less_Suc_eq)
  with a have x: "max_legal [0, 1, 1, 0] [Fin 100, Fin 1, Fin 2, Fin 50] = Inr m" by simp
  from m j x show ?thesis by (intro exI [of _ m] conjI)
qed

section \<open>Terminal transitions\<close>

text \<open>
  When the masked maximum is a finite number, a terminal transition (\<open>done = 1\<close>) gets the
  reward itself as its target, whatever the discount factor and the next-state outputs.
\<close>

lemma discounted_reward_terminal_finite:
  assumes "max_legal legal next_outputs = Inr (Fin v)"
  shows "discounted_reward gam r legal next_outputs 1 = Inr (Fin r)"
  using assms by (simp add: discounted_reward_def)


text \<open>
  Claim C3. The target of a terminal transition is not always the reward. A terminal
  state may have no legal move; its mask row is all zero, the masked maximum is
  \<open>-inf\<close>, and \<open>(gamma * -inf) * (1 - 1)\<close> is \<open>-inf * 0\<close>, which is NaN. Here the
  reward is \<open>1\<close>, the discount factor \<open>0.99\<close>, \<open>done = 1\<close>, and the target is NaN.
\<close>

theorem terminal_target_all_illegal_is_nan:
  "discounted_reward (99 / 100) 1 [0, 0, 0, 0]
      [Fin (1 / 10), Fin (2 / 10), Fin (3 / 10), Fin (4 / 10)] 1 = Inr NaN
   \<and> Inr NaN \<noteq> (Inr (Fin 1) :: py_error + npfloat)"
  by (simp add: discounted_reward_def max_legal_def where_legal_def broadcast2_def)

section \<open>The regression target\<close>

lemma broadcast2_same_length:
  "length xs = length ys \<Longrightarrow> broadcast2 f xs ys = Inr (map2 f xs ys)"
  by (simp add: broadcast2_def)

lemma regression_target_same_length:
  assumes "length act = length current"
  shows "regression_target act current dr =
    Inr (map2 (\<lambda>ai ci. fl_add (fl_mul (Fin (of_int (1 - ai))) ci) (fl_mul (Fin (of_int ai)) dr))
          act current)"
proof -
  let ?kept = "map2 (\<lambda>ai ci. fl_mul (Fin (of_int (1 - ai))) ci) act current"
  let ?new = "map (\<lambda>ai. fl_mul (Fin (of_int ai)) dr) act"
  have k: "broadcast2 (\<lambda>ai ci. fl_mul (Fin (of_int (1 - ai))) ci) act current = Inr ?kept"
    using assms by (simp add: broadcast2_def)
  have l: "length ?kept = length ?new" using assms by simp
  have s: "broadcast2 fl_add ?kept ?new = Inr (map2 fl_add ?kept ?new)"
    using l by (rule broadcast2_same_length)
  have e: "map2 fl_add ?kept ?new
     = map2 (\<lambda>ai ci. fl_add (fl_mul (Fin (of_int (1 - ai))) ci) (fl_mul (Fin (of_int ai)) dr))
          act current"
    using assms by (intro nth_equalityI) simp_all
  show ?thesis unfolding regression_target_def k using s e by simp
qed

lemma regression_target_nth:
  assumes "length act = length current" and "j < length current"
  shows "\<exists>t. regression_target act current dr = Inr t \<and> length t = length current \<and>
     t ! j = fl_add (fl_mul (Fin (of_int (1 - act ! j))) (current ! j))
                    (fl_mul (Fin (of_int (act ! j))) dr)"
  using assms by (simp add: regression_target_same_length)

lemma blend_not_taken: "fl_add (fl_mul (Fin (of_int (1 - 0))) (Fin c)) (fl_mul (Fin (of_int 0)) (Fin d)) = Fin c"
  by simp

lemma blend_taken: "fl_add (fl_mul (Fin (of_int (1 - 1))) (Fin c)) (fl_mul (Fin (of_int 1)) (Fin d)) = Fin d"
  by simp


text \<open>
  Claim C5, as stated, fails when the discounted reward is not finite: the row
  \<open>(1 - a) * target + a * discounted_reward\<close> multiplies the discounted reward by zero
  at the actions not taken, and \<open>0 * nan\<close> is NaN. With the NaN target of a terminal
  transition without legal moves, the entry of the action not taken is NaN and not the
  current action value \<open>2\<close>.
\<close>

theorem regression_target_nan_counterexample:
  "\<exists>dr t. discounted_reward (99 / 100) 1 [0, 0] [Fin 3, Fin 4] 1 = Inr dr
      \<and> regression_target [1, 0] [Fin 1, Fin 2] dr = Inr t
      \<and> [1, 0 :: int] ! 1 = 0 \<and> t ! 1 \<noteq> [Fin 1, Fin 2] ! 1"
proof -
  have d: "discounted_reward (99 / 100) 1 [0, 0] [Fin 3, Fin 4] 1 = Inr NaN"
    by (simp add: discounted_reward_def max_legal_def where_legal_def broadcast2_def)
  have t: "regression_target [1, 0] [Fin 1, Fin 2] NaN = Inr [NaN, NaN]"
    by (simp add: regression_target_def broadcast2_def)
  have "[1, 0 :: int] ! 1 = 0 \<and> [NaN, NaN] ! 1 \<noteq> [Fin 1, Fin 2] ! 1" by simp
  with d t show ?thesis by blast
qed

text \<open>
  Claim C5, amended. Every entry of the regression target is
  \<open>(1 - a) * current_q + a * discounted_reward\<close> for the row's action indicator \<open>a\<close>;
  whenever the current action values and the discounted reward are finite, the target
  equals the current action value at every action not taken (\<open>a = 0\<close>) and the discounted
  reward at the action taken (\<open>a = 1\<close>).
\<close>

theorem regression_target_selects:
  assumes len: "length act = length current"
    and fin_dr: "is_finite dr"
    and fin_cur: "list_all is_finite current"
  shows "\<exists>t. regression_target act current dr = Inr t \<and> length t = length current \<and>
     (\<forall>j<length current.
        t ! j = fl_add (fl_mul (Fin (of_int (1 - act ! j))) (current ! j))
                       (fl_mul (Fin (of_int (act ! j))) dr)
      \<and> (act ! j = 0 \<longrightarrow> t ! j = current ! j) \<and> (act ! j = 1 \<longrightarrow> t ! j = dr))"
proof -
  let ?t = "map2 (\<lambda>ai ci. fl_add (fl_mul (Fin (of_int (1 - ai))) ci) (fl_mul (Fin (of_int ai)) dr))
          act current"
  from fin_dr obtain d where d: "dr = Fin d" by (cases dr) (simp_all add: is_finite_def)
  have rt: "regression_target act current dr = Inr ?t"
    using len by (rule regression_target_same_length)
  have lt: "length ?t = length current" using len by simp
  have each: "\<forall>j<length current.
        ?t ! j = fl_add (fl_mul (Fin (of_int (1 - act ! j))) (current ! j))
                       (fl_mul (Fin (of_int (act ! j))) dr)
      \<and> (act ! j = 0 \<longrightarrow> ?t ! j = current ! j) \<and> (act ! j = 1 \<longrightarrow> ?t ! j = dr)"
  proof (intro allI impI)
    fix j assume j: "j < length current"
    with fin_cur have "is_finite (current ! j)" by (simp add: list_all_length)
    then obtain c where c: "current ! j = Fin c" by (cases "current ! j") (simp_all add: is_finite_def)
    have n: "?t ! j = fl_add (fl_mul (Fin (of_int (1 - act ! j))) (current ! j))
                       (fl_mul (Fin (of_int (act ! j))) dr)"
      using j len by simp
    have z: "act ! j = 0 \<longrightarrow> fl_add (fl_mul (Fin (of_int (1 - act ! j))) (current ! j))
                       (fl_mul (Fin (of_int (act ! j))) dr) = current ! j"
      by (simp add: c d)
    have o: "act ! j = 1 \<longrightarrow> fl_add (fl_mul (Fin (of_int (1 - act ! j))) (current ! j))
                       (fl_mul (Fin (of_int (act ! j))) dr) = dr"
      by (simp add: c d)
    from n z o show "?t ! j = fl_add (fl_mul (Fin (of_int (1 - act ! j))) (current ! j))
                       (fl_mul (Fin (of_int (act ! j))) dr)
      \<and> (act ! j = 0 \<longrightarrow> ?t ! j = current ! j) \<and> (act ! j = 1 \<longrightarrow> ?t ! j = dr)"
      by (simp only: simp_thms)
  qed
  from rt lt each show ?thesis by simp
qed

theorem regression_target_selects_witness:
  "\<exists>t. regression_target [0, 1, 0, 0] [Fin 1, Fin 2, Fin 3, Fin 4] (Fin 7) = Inr t
     \<and> length t = 4 \<and> t ! 0 = Fin 1 \<and> t ! 1 = Fin 7 \<and> t ! 2 = Fin 3 \<and> t ! 3 = Fin 4"
proof -
  have len: "length [0, 1, 0, 0 :: int] = length [Fin 1, Fin 2, Fin 3, Fin 4]" by simp
  have fd: "is_finite (Fin 7)" by (simp add: is_finite_def)
  have fc: "list_all is_finite [Fin 1, Fin 2, Fin 3, Fin 4]" by (simp add: is_finite_def)
  from regression_target_selects [OF len fd fc] obtain t where
    t: "regression_target [0, 1, 0, 0] [Fin 1, Fin 2, Fin 3, Fin 4] (Fin 7) = Inr t"
    and l: "length t = length [Fin 1, Fin 2, Fin 3, Fin 4]"
    and e: "\<forall>j<length [Fin 1, Fin 2, Fin 3, Fin 4].
        t ! j = fl_add (fl_mul (Fin (of_int (1 - [0, 1, 0, 0] ! j))) ([Fin 1, Fin 2, Fin 3, Fin 4] ! j))
                       (fl_mul (Fin (of_int ([0, 1, 0, 0] ! j))) (Fin 7))
      \<and> ([0, 1, 0, 0 :: int] ! j = 0 \<longrightarrow> t ! j = [Fin 1, Fin 2, Fin 3, Fin 4] ! j)
      \<and> ([0, 1, 0, 0 :: int] ! j = 1 \<longrightarrow> t ! j = Fin 7)"
    by blast
  from e have "t ! 0 = Fin 1" by simp
  moreover from e have "t ! 1 = Fin 7" by simp
  moreover from e have "t ! 2 = Fin 3" by simp
  moreover from e have "t ! 3 = Fin 4" by simp
  ultimately show ?thesis using t l by simp
qed

section \<open>Reward normalization\<close>
















section \<open>The observation preprocessor\<close>

lemma length_concat_const:
  "(\<And>x. x \<in> set xs \<Longrightarrow> length (f x) = L) \<Longrightarrow> length (concat (map f xs)) = length xs * L"
  by (induction xs) auto

lemma concat_map_nth:
  assumes "\<And>i. i < n \<Longrightarrow> length (f i) = L" and "i < n" and "r < L"
  shows "concat (map f [0..<n]) ! (i * L + r) = f i ! r"
  using assms
proof (induction n)
  case 0
  then show ?case by simp
next
  case (Suc n)
  have len: "length (concat (map f [0..<n])) = n * L"
    using Suc.prems(1) length_concat_const [of "[0..<n]" f L] by simp
  show ?case
  proof (cases "i < n")
    case True
    then have "i * L + r < n * L"
    proof -
      from True have "Suc i \<le> n" by simp
      then have "Suc i * L \<le> n * L" by (rule mult_le_mono1)
      with Suc.prems(3) show ?thesis by simp
    qed
    moreover have "concat (map f [0..<n]) ! (i * L + r) = f i ! r"
      using Suc.IH [OF _ True Suc.prems(3)] Suc.prems(1) by simp
    ultimately show ?thesis using len by (simp add: nth_append)
  next
    case False
    with Suc.prems(2) have "i = n" by simp
    then show ?thesis using len by (simp add: nth_append)
  qed
qed

lemma offsets_length:
  "length ss = length sh \<Longrightarrow> length (offsets off sh ss) = prod_list sh"
proof (induction off sh ss rule: offsets.induct)
  case (1 off ss)
  then show ?case by simp
next
  case (2 off d ds s ss)
  then have "\<And>x. x \<in> set [0..<d] \<Longrightarrow> length (offsets (off + x * s) ds ss) = prod_list ds"
    by simp
  then have "length (concat (map (\<lambda>i. offsets (off + i * s) ds ss) [0..<d])) = length [0..<d] * prod_list ds"
    by (rule length_concat_const)
  then show ?case by simp
next
  case (3 off d ds)
  then show ?case by simp
qed

lemma offsets_nth:
  assumes "length ss = length sh" and "list_all2 (<) idx sh"
  shows "flat_index sh idx < prod_list sh
       \<and> offsets off sh ss ! flat_index sh idx = off + dot idx ss"
  using assms
proof (induction sh arbitrary: off ss idx)
  case Nil
  then show ?case by simp
next
  case (Cons d ds)
  from Cons.prems(1) obtain s ss' where ss: "ss = s # ss'" and l: "length ss' = length ds"
    by (cases ss) auto
  from Cons.prems(2) obtain i js where idx: "idx = i # js" and i: "i < d"
    and js: "list_all2 (<) js ds"
    by (cases idx) auto
  let ?L = "prod_list ds"
  have IH: "flat_index ds js < ?L
       \<and> offsets (off + i * s) ds ss' ! flat_index ds js = off + i * s + dot js ss'"
    using Cons.IH [OF l js] by simp
  have lens: "\<And>k. k < d \<Longrightarrow> length (offsets (off + k * s) ds ss') = ?L"
    using l by (simp add: offsets_length)
  have n: "concat (map (\<lambda>k. offsets (off + k * s) ds ss') [0..<d]) ! (i * ?L + flat_index ds js)
        = offsets (off + i * s) ds ss' ! flat_index ds js"
    using lens i IH by (intro concat_map_nth) simp_all
  have b: "i * ?L + flat_index ds js < d * ?L"
  proof -
    from i have "Suc i \<le> d" by simp
    then have "Suc i * ?L \<le> d * ?L" by (rule mult_le_mono1)
    with IH show ?thesis by simp
  qed
  show ?case unfolding ss idx using n b IH by simp
qed

lemma concat_upt_blocks:
  "concat (map (\<lambda>i. [off + i * L..<off + i * L + L]) [0..<d]) = [off..<off + d * L]"
proof (induction d)
  case 0
  then show ?case by simp
next
  case (Suc d)
  have a: "[off..<off + d * L + L] = [off..<off + d * L] @ [off + d * L..<off + d * L + L]"
    by (rule upt_add_eq_append) simp
  have "concat (map (\<lambda>i. [off + i * L..<off + i * L + L]) [0..<Suc d])
      = concat (map (\<lambda>i. [off + i * L..<off + i * L + L]) [0..<d]) @ [off + d * L..<off + d * L + L]"
    by simp
  also have "\<dots> = [off..<off + d * L] @ [off + d * L..<off + d * L + L]"
    by (simp only: Suc)
  also have "\<dots> = [off..<off + d * L + L]" by (simp only: a)
  also have "off + d * L + L = off + Suc d * L" by simp
  finally show ?case .
qed

lemma offsets_contiguous:
  "offsets off sh (c_strides sh) = [off..<off + prod_list sh]"
proof (induction sh arbitrary: off)
  case Nil
  then show ?case by simp
next
  case (Cons d ds)
  have "offsets off (d # ds) (c_strides (d # ds))
      = concat (map (\<lambda>i. offsets (off + i * prod_list ds) ds (c_strides ds)) [0..<d])"
    by simp
  also have "\<dots> = concat (map (\<lambda>i. [off + i * prod_list ds..<off + i * prod_list ds + prod_list ds]) [0..<d])"
    by (simp only: Cons.IH)
  also have "\<dots> = [off..<off + d * prod_list ds]" by (rule concat_upt_blocks)
  finally show ?case by simp
qed

lemma length_c_strides: "length (c_strides sh) = length sh"
  by (induction sh) simp_all

lemma length_gather:
  "length (strides arr) = length (shape arr) \<Longrightarrow> length (gather st arr) = prod_list (shape arr)"
  by (simp add: gather_def offsets_length)

lemma gather_append:
  "base arr < length st \<Longrightarrow> gather (st @ more_bufs) arr = gather st arr"
  by (simp add: gather_def nth_append)

lemma gather_new:
  assumes "length xs = prod_list sh"
  shows "gather (st @ xs # more_bufs) \<lparr>base = length st, offset = 0, shape = sh, strides = c_strides sh\<rparr> = xs"
proof -
  have "map (\<lambda>p. xs ! p) [0..<length xs] = xs" by (rule map_nth)
  then show ?thesis using assms by (simp add: gather_def offsets_contiguous)
qed

lemma gather_fresh:
  assumes "length xs = prod_list sh" and "n = length st"
  shows "gather (st @ xs # more_bufs) \<lparr>base = n, offset = 0, shape = sh, strides = c_strides sh\<rparr> = xs"
  using assms gather_new [of xs sh st more_bufs] by simp

lemma copy_result:
  "copy arr st = (\<lparr>base = length st, offset = 0, shape = shape arr, strides = c_strides (shape arr)\<rparr>,
                  st @ [gather st arr])"
  by (simp add: copy_def new_array_def)

lemma normalize_board_result:
  assumes "length xs = prod_list sh"
  shows "normalize_board \<lparr>base = length st, offset = 0, shape = sh, strides = c_strides sh\<rparr> (st @ [xs])
       = (\<lparr>base = length st + 2, offset = 0, shape = sh, strides = c_strides sh\<rparr>,
          st @ [xs, map to_float xs, map (div_scalar 4) (map to_float xs)])"
proof -
  have g1: "gather (st @ [xs]) \<lparr>base = length st, offset = 0, shape = sh, strides = c_strides sh\<rparr> = xs"
    using assms gather_fresh [of xs sh "length st" st "[]"] by simp
  have a: "astype_float32 \<lparr>base = length st, offset = 0, shape = sh, strides = c_strides sh\<rparr> (st @ [xs])
       = (\<lparr>base = length st + 1, offset = 0, shape = sh, strides = c_strides sh\<rparr>,
          (st @ [xs]) @ [map to_float xs])"
    using g1 by (simp add: astype_float32_def new_array_def)
  have g2: "gather (st @ [xs, map to_float xs])
              \<lparr>base = Suc (length st), offset = 0, shape = sh, strides = c_strides sh\<rparr> = map to_float xs"
    using assms gather_fresh [of "map to_float xs" sh "Suc (length st)" "st @ [xs]" "[]"] by simp
  have d: "true_divide \<lparr>base = length st + 1, offset = 0, shape = sh, strides = c_strides sh\<rparr> 4
              ((st @ [xs]) @ [map to_float xs])
       = (\<lparr>base = length st + 2, offset = 0, shape = sh, strides = c_strides sh\<rparr>,
          ((st @ [xs]) @ [map to_float xs]) @ [map (div_scalar 4) (map to_float xs)])"
    using g2 by (simp add: true_divide_def new_array_def)
  show ?thesis unfolding normalize_board_def a using d by simp
qed

lemma pipeline_result:
  assumes ls: "length (strides b2) = length (shape b2)"
  shows "(case copy b2 st1 of (b3, st3) \<Rightarrow>
            case normalize_board b3 st3 of (b4, st4) \<Rightarrow> copy b4 st4)
       = (\<lparr>base = length st1 + 3, offset = 0, shape = shape b2, strides = c_strides (shape b2)\<rparr>,
          st1 @ [gather st1 b2, map to_float (gather st1 b2),
                 map (div_scalar 4) (map to_float (gather st1 b2)),
                 map (div_scalar 4) (map to_float (gather st1 b2))])"
proof -
  let ?g = "gather st1 b2"
  let ?sh = "shape b2"
  have lg: "length ?g = prod_list ?sh" using ls by (rule length_gather)
  have n: "normalize_board \<lparr>base = length st1, offset = 0, shape = ?sh, strides = c_strides ?sh\<rparr> (st1 @ [?g])
       = (\<lparr>base = length st1 + 2, offset = 0, shape = ?sh, strides = c_strides ?sh\<rparr>,
          st1 @ [?g, map to_float ?g, map (div_scalar 4) (map to_float ?g)])"
    using lg by (rule normalize_board_result)
  have g3: "gather (st1 @ [?g, map to_float ?g, map (div_scalar 4 \<circ> to_float) ?g])
              \<lparr>base = Suc (Suc (length st1)), offset = 0, shape = ?sh, strides = c_strides ?sh\<rparr>
          = map (div_scalar 4 \<circ> to_float) ?g"
    using lg gather_fresh [of "map (div_scalar 4 \<circ> to_float) ?g" ?sh "Suc (Suc (length st1))"
          "st1 @ [?g, map to_float ?g]" "[]"] by simp
  show ?thesis
    unfolding copy_result [of b2 st1] using n g3 by (simp add: copy_result)
qed

lemma prod_list_map_int: "prod_list (map int xs) = int (prod_list xs)"
  by (induction xs) simp_all

lemma resolve_shape_input:
  assumes "map int sh3 = input_shape a"
  shows "resolve_shape (1 # input_shape a) (prod_list sh3) = Inr (1 # sh3)"
proof -
  let ?new = "1 # map int sh3"
  have a: "\<not> list_ex (\<lambda>d. d < - 1) ?new" by (simp add: list_ex_iff)
  have f: "filter (\<lambda>d. d = - 1) ?new = []" by (simp add: filter_empty_conv)
  have p: "prod_list ?new = int (prod_list sh3)" by (simp add: prod_list_map_int)
  have m: "map nat ?new = 1 # sh3" by (simp add: comp_def)
  have "resolve_shape ?new (prod_list sh3) = Inr (1 # sh3)"
    unfolding resolve_shape_def using a f p m by (simp only: if_False list.case if_True refl)
  then show ?thesis using assms by simp
qed

lemma resolve_shape_length:
  "resolve_shape new n = Inr sh \<Longrightarrow> length sh = length new"
  by (auto simp: resolve_shape_def Let_def split: if_splits list.splits)

lemma rollaxis_ok:
  "4 \<le> ndim arr \<Longrightarrow>
   rollaxis_3_1 arr = Inr (arr\<lparr>shape := roll_3_1 (shape arr), strides := roll_3_1 (strides arr)\<rparr>)"
  by (simp add: rollaxis_3_1_def)

lemma length_roll_3_1: "length (roll_3_1 xs) = length xs"
  by (induction xs rule: roll_3_1.induct) simp_all

lemma gather_nth4:
  assumes sh: "shape arr = [d0, d1, d2, d3]" and ss: "strides arr = [t0, t1, t2, t3]"
    and i: "i < d0" and j: "j < d1" and k: "k < d2" and l: "l < d3"
  shows "i * (d1 * d2 * d3) + j * (d2 * d3) + k * d3 + l < d0 * d1 * d2 * d3
       \<and> gather st arr ! (i * (d1 * d2 * d3) + j * (d2 * d3) + k * d3 + l)
           = st ! base arr ! (offset arr + i * t0 + j * t1 + k * t2 + l * t3)"
proof -
  have la: "list_all2 (<) [i, j, k, l] [d0, d1, d2, d3]" using i j k l by simp
  have ls: "length [t0, t1, t2, t3] = length [d0, d1, d2, d3]" by simp
  from offsets_nth [OF ls la, of "offset arr"]
  have b: "flat_index [d0, d1, d2, d3] [i, j, k, l] < prod_list [d0, d1, d2, d3]"
    and o: "offsets (offset arr) [d0, d1, d2, d3] [t0, t1, t2, t3] ! flat_index [d0, d1, d2, d3] [i, j, k, l]
          = offset arr + dot [i, j, k, l] [t0, t1, t2, t3]"
    by simp_all
  have f: "flat_index [d0, d1, d2, d3] [i, j, k, l] = i * (d1 * d2 * d3) + j * (d2 * d3) + k * d3 + l"
    by simp
  have len: "length (offsets (offset arr) [d0, d1, d2, d3] [t0, t1, t2, t3]) = prod_list [d0, d1, d2, d3]"
    using ls by (rule offsets_length)
  have d: "dot [i, j, k, l] [t0, t1, t2, t3] = i * t0 + j * t1 + k * t2 + l * t3" by simp
  have p: "prod_list [d0, d1, d2, d3] = d0 * d1 * d2 * d3" by (simp add: mult.assoc)
  have "gather st arr ! flat_index [d0, d1, d2, d3] [i, j, k, l]
      = st ! base arr ! (offsets (offset arr) [d0, d1, d2, d3] [t0, t1, t2, t3] ! flat_index [d0, d1, d2, d3] [i, j, k, l])"
    unfolding gather_def sh ss using b len by (intro nth_map) simp
  then have "gather st arr ! flat_index [d0, d1, d2, d3] [i, j, k, l]
      = st ! base arr ! (offset arr + i * t0 + j * t1 + k * t2 + l * t3)"
    unfolding o d by (simp add: add.assoc)
  with b show ?thesis unfolding f p by simp
qed

lemma gather_nth3:
  assumes sh: "shape arr = [d0, d1, d2]" and ss: "strides arr = [t0, t1, t2]"
    and i: "i < d0" and j: "j < d1" and k: "k < d2"
  shows "i * (d1 * d2) + j * d2 + k < d0 * d1 * d2
       \<and> gather st arr ! (i * (d1 * d2) + j * d2 + k)
           = st ! base arr ! (offset arr + i * t0 + j * t1 + k * t2)"
proof -
  have la: "list_all2 (<) [i, j, k] [d0, d1, d2]" using i j k by simp
  have ls: "length [t0, t1, t2] = length [d0, d1, d2]" by simp
  from offsets_nth [OF ls la, of "offset arr"]
  have b: "flat_index [d0, d1, d2] [i, j, k] < prod_list [d0, d1, d2]"
    and o: "offsets (offset arr) [d0, d1, d2] [t0, t1, t2] ! flat_index [d0, d1, d2] [i, j, k]
          = offset arr + dot [i, j, k] [t0, t1, t2]"
    by simp_all
  have f: "flat_index [d0, d1, d2] [i, j, k] = i * (d1 * d2) + j * d2 + k"
    by simp
  have len: "length (offsets (offset arr) [d0, d1, d2] [t0, t1, t2]) = prod_list [d0, d1, d2]"
    using ls by (rule offsets_length)
  have d: "dot [i, j, k] [t0, t1, t2] = i * t0 + j * t1 + k * t2" by simp
  have p: "prod_list [d0, d1, d2] = d0 * d1 * d2" by (simp add: mult.assoc)
  have "gather st arr ! flat_index [d0, d1, d2] [i, j, k]
      = st ! base arr ! (offsets (offset arr) [d0, d1, d2] [t0, t1, t2] ! flat_index [d0, d1, d2] [i, j, k])"
    unfolding gather_def sh ss using b len by (intro nth_map) simp
  then have "gather st arr ! flat_index [d0, d1, d2] [i, j, k]
      = st ! base arr ! (offset arr + i * t0 + j * t1 + k * t2)"
    unfolding o d by (simp add: add.assoc)
  with b show ?thesis unfolding f p by simp
qed

text \<open>An element of the array the pipeline returns, read through the view it copied.\<close>

lemma pipeline_item4:
  assumes sh: "shape b2 = [d0, d1, d2, d3]" and ss: "strides b2 = [t0, t1, t2, t3]"
    and i: "i < d0" and j: "j < d1" and k: "k < d2" and l: "l < d3"
  shows "item4 (st1 @ [gather st1 b2, map to_float (gather st1 b2),
                 map (div_scalar 4) (map to_float (gather st1 b2)),
                 map (div_scalar 4) (map to_float (gather st1 b2))])
           \<lparr>base = length st1 + 3, offset = 0, shape = shape b2, strides = c_strides (shape b2)\<rparr>
           i j k l
       = div_scalar 4 (to_float (st1 ! base b2 ! (offset b2 + i * t0 + j * t1 + k * t2 + l * t3)))"
proof -
  let ?g = "gather st1 b2"
  let ?p = "i * (d1 * d2 * d3) + j * (d2 * d3) + k * d3 + l"
  from gather_nth4 [OF sh ss i j k l, of st1]
  have b: "?p < d0 * d1 * d2 * d3"
    and g: "?g ! ?p = st1 ! base b2 ! (offset b2 + i * t0 + j * t1 + k * t2 + l * t3)"
    by simp_all
  have lg: "length ?g = d0 * d1 * d2 * d3"
    using length_gather [of b2 st1] sh ss by (simp add: mult.assoc)
  have x: "map (div_scalar 4) (map to_float ?g) ! ?p = div_scalar 4 (to_float (?g ! ?p))"
    using b lg by simp
  have it: "item4 (st1 @ [?g, map to_float ?g, map (div_scalar 4) (map to_float ?g),
                 map (div_scalar 4) (map to_float ?g)])
           \<lparr>base = length st1 + 3, offset = 0, shape = shape b2, strides = c_strides (shape b2)\<rparr>
           i j k l
        = map (div_scalar 4) (map to_float ?g) ! ?p"
    unfolding item4_def sh by (simp add: nth_append mult.assoc)
  show ?thesis unfolding it x g ..
qed

lemma cnc_result:
  assumes "length (strides b2) = length (shape b2)"
  shows "copy_normalize_copy b2 st1
       = (\<lparr>base = length st1 + 3, offset = 0, shape = shape b2, strides = c_strides (shape b2)\<rparr>,
          st1 @ [gather st1 b2, map to_float (gather st1 b2),
                 map (div_scalar 4) (map to_float (gather st1 b2)),
                 map (div_scalar 4) (map to_float (gather st1 b2))])"
  unfolding copy_normalize_copy_def using assms by (rule pipeline_result)

lemma prepare_input_many:
  assumes "4 \<le> ndim board"
  shows "prepare_input a board st = Inr (copy_normalize_copy (rolled board) st)"
proof -
  from assms have n3: "ndim board \<noteq> 3" by simp
  have r: "rollaxis_3_1 board = Inr (rolled board)"
    unfolding rolled_def using assms by (rule rollaxis_ok)
  show ?thesis
    unfolding prepare_input_def copy_normalize_copy_def using n3 r by (simp split: prod.splits)
qed

lemma prepare_input_few:
  assumes "ndim board < 3"
  shows "prepare_input a board st = Inl AxisError"
  using assms by (simp add: prepare_input_def rollaxis_3_1_def)

lemma prepare_input_single_error:
  assumes "ndim board = 3"
    and "resolve_shape (1 # input_shape a) (prod_list (shape board)) = Inl e"
  shows "prepare_input a board st = Inl e"
  using assms by (simp add: prepare_input_def reshape_def)

lemma prepare_input_single_view:
  assumes n: "ndim board = 3"
    and rs: "resolve_shape (1 # input_shape a) (prod_list (shape board)) = Inr sh"
    and c: "strides board = c_strides (shape board)"
  shows "prepare_input a board st =
     Inr (copy_normalize_copy (rolled (board\<lparr>shape := sh, strides := c_strides sh\<rparr>)) st)"
proof -
  let ?b1 = "board\<lparr>shape := sh, strides := c_strides sh\<rparr>"
  have l: "length sh = 4" using resolve_shape_length [OF rs] by (simp add: input_shape_def)
  then have "4 \<le> ndim ?b1" by (simp add: ndim_def)
  then have r: "rollaxis_3_1 ?b1 = Inr (rolled ?b1)"
    unfolding rolled_def by (rule rollaxis_ok)
  have rsh: "reshape board (1 # input_shape a) st = Inr (?b1, st)"
    using rs c by (simp add: reshape_def)
  show ?thesis
    unfolding prepare_input_def copy_normalize_copy_def using n rsh r
    by (simp split: prod.splits)
qed

lemma prepare_input_single_copy:
  assumes n: "ndim board = 3"
    and rs: "resolve_shape (1 # input_shape a) (prod_list (shape board)) = Inr sh"
    and c: "strides board \<noteq> c_strides (shape board)"
  shows "prepare_input a board st =
     Inr (copy_normalize_copy
            (rolled \<lparr>base = length st, offset = 0, shape = sh, strides = c_strides sh\<rparr>)
            (st @ [gather st board]))"
proof -
  let ?b1 = "\<lparr>base = length st, offset = 0, shape = sh, strides = c_strides sh\<rparr>"
  have l: "length sh = 4" using resolve_shape_length [OF rs] by (simp add: input_shape_def)
  then have "4 \<le> ndim ?b1" by (simp add: ndim_def)
  then have r: "rollaxis_3_1 ?b1 = Inr (rolled ?b1)"
    unfolding rolled_def by (rule rollaxis_ok)
  have rsh: "reshape board (1 # input_shape a) st = Inr (?b1, st @ [gather st board])"
    using rs c by (simp add: reshape_def new_array_def)
  show ?thesis
    unfolding prepare_input_def copy_normalize_copy_def using n rsh r
    by (simp split: prod.splits)
qed

lemma rolled_lengths:
  "length (strides arr) = length (shape arr) \<Longrightarrow>
   length (strides (rolled arr)) = length (shape (rolled arr))"
  by (simp add: rolled_def length_roll_3_1)

lemma strides4:
  assumes "length (strides arr) = length (shape arr)" and "shape arr = [d0, d1, d2, d3]"
  shows "\<exists>t0 t1 t2 t3. strides arr = [t0, t1, t2, t3]"
proof -
  from assms have "length (strides arr) = Suc (Suc (Suc (Suc 0)))" by simp
  then show ?thesis by (auto simp: length_Suc_conv)
qed

lemma strides3:
  assumes "length (strides arr) = length (shape arr)" and "shape arr = [d0, d1, d2]"
  shows "\<exists>t0 t1 t2. strides arr = [t0, t1, t2]"
proof -
  from assms have "length (strides arr) = Suc (Suc (Suc 0))" by simp
  then show ?thesis by (auto simp: length_Suc_conv)
qed

lemma prepare_input_many_items:
  assumes ls: "length (strides board) = length (shape board)"
    and sh: "shape board = [B, H, W, N]"
  shows "\<exists>out st'. prepare_input a board st = Inr (out, st') \<and> shape out = [B, N, H, W]
     \<and> (\<forall>b<B. \<forall>n<N. \<forall>h<H. \<forall>w<W.
           item4 st' out b n h w = div_scalar 4 (to_float (item4 st board b h w n)))"
proof -
  from strides4 [OF ls sh] obtain t0 t1 t2 t3 where ss: "strides board = [t0, t1, t2, t3]"
    by blast
  let ?b2 = "rolled board"
  let ?g = "gather st ?b2"
  let ?out = "\<lparr>base = length st + 3, offset = 0, shape = shape ?b2, strides = c_strides (shape ?b2)\<rparr>"
  let ?st' = "st @ [?g, map to_float ?g, map (div_scalar 4) (map to_float ?g),
                 map (div_scalar 4) (map to_float ?g)]"
  have sh2: "shape ?b2 = [B, N, H, W]" by (simp add: rolled_def sh)
  have ss2: "strides ?b2 = [t0, t3, t1, t2]" by (simp add: rolled_def ss)
  have bo: "base ?b2 = base board" "offset ?b2 = offset board" by (simp_all add: rolled_def)
  have n: "4 \<le> ndim board" by (simp add: ndim_def sh)
  have l2: "length (strides ?b2) = length (shape ?b2)" using ls by (rule rolled_lengths)
  have r: "prepare_input a board st = Inr (?out, ?st')"
    unfolding prepare_input_many [OF n] cnc_result [OF l2] ..
  have items: "\<forall>b<B. \<forall>n<N. \<forall>h<H. \<forall>w<W.
           item4 ?st' ?out b n h w = div_scalar 4 (to_float (item4 st board b h w n))"
  proof (intro allI impI)
    fix b n h w
    assume b: "b < B" and n: "n < N" and h: "h < H" and w: "w < W"
    have "item4 ?st' ?out b n h w
        = div_scalar 4 (to_float (st ! base ?b2 ! (offset ?b2 + b * t0 + n * t3 + h * t1 + w * t2)))"
      using sh2 ss2 b n h w by (rule pipeline_item4)
    also have "st ! base ?b2 ! (offset ?b2 + b * t0 + n * t3 + h * t1 + w * t2)
             = item4 st board b h w n"
      unfolding bo item4_def ss by (simp add: ac_simps)
    finally show "item4 ?st' ?out b n h w = div_scalar 4 (to_float (item4 st board b h w n))" .
  qed
  have "shape ?out = [B, N, H, W]" using sh2 by simp
  with r items show ?thesis by blast
qed

lemma prepare_input_single_items:
  assumes ls: "length (strides board) = length (shape board)"
    and sh: "shape board = [S, S, K]"
    and bs: "board_size a = int S" and nf: "n_frames a = int K"
  shows "\<exists>out st'. prepare_input a board st = Inr (out, st') \<and> shape out = [1, K, S, S]
     \<and> (\<forall>n<K. \<forall>h<S. \<forall>w<S.
           item4 st' out 0 n h w = div_scalar 4 (to_float (item3 st board h w n)))"
proof -
  from strides3 [OF ls sh] obtain t0 t1 t2 where ss: "strides board = [t0, t1, t2]"
    by blast
  have n3: "ndim board = 3" by (simp add: ndim_def sh)
  have "map int [S, S, K] = input_shape a" by (simp add: input_shape_def bs nf)
  then have "resolve_shape (1 # input_shape a) (prod_list [S, S, K]) = Inr (1 # [S, S, K])"
    by (rule resolve_shape_input)
  then have rs: "resolve_shape (1 # input_shape a) (prod_list (shape board)) = Inr [1, S, S, K]"
    by (simp add: sh)
  let ?cs = "c_strides [1, S, S, K]"
  have cs: "?cs = [S * (S * K), S * K, K, 1]" by simp
  show ?thesis
  proof (cases "strides board = c_strides (shape board)")
    case True
    let ?b2 = "rolled (board\<lparr>shape := [1, S, S, K], strides := ?cs\<rparr>)"
    let ?g = "gather st ?b2"
    let ?out = "\<lparr>base = length st + 3, offset = 0, shape = shape ?b2, strides = c_strides (shape ?b2)\<rparr>"
    let ?st' = "st @ [?g, map to_float ?g, map (div_scalar 4) (map to_float ?g),
                 map (div_scalar 4) (map to_float ?g)]"
    have sh2: "shape ?b2 = [1, K, S, S]" by (simp add: rolled_def)
    have ss2: "strides ?b2 = [S * (S * K), 1, S * K, K]" by (simp add: rolled_def)
    have bo: "base ?b2 = base board" "offset ?b2 = offset board" by (simp_all add: rolled_def)
    have l2: "length (strides ?b2) = length (shape ?b2)" by (simp add: rolled_def)
    from True have tt: "t0 = S * K" "t1 = K" "t2 = 1" unfolding ss sh by simp_all
    have r: "prepare_input a board st = Inr (?out, ?st')"
      unfolding prepare_input_single_view [OF n3 rs True] cnc_result [OF l2] ..
    have items: "\<forall>n<K. \<forall>h<S. \<forall>w<S.
           item4 ?st' ?out 0 n h w = div_scalar 4 (to_float (item3 st board h w n))"
    proof (intro allI impI)
      fix n h w
      assume n: "n < K" and h: "h < S" and w: "w < S"
      have z: "(0::nat) < 1" by simp
      have "item4 ?st' ?out 0 n h w
        = div_scalar 4 (to_float (st ! base ?b2 !
             (offset ?b2 + 0 * (S * (S * K)) + n * 1 + h * (S * K) + w * K)))"
        using sh2 ss2 z n h w by (rule pipeline_item4)
      also have "st ! base ?b2 ! (offset ?b2 + 0 * (S * (S * K)) + n * 1 + h * (S * K) + w * K)
             = item3 st board h w n"
        unfolding bo item3_def ss tt by (simp add: ac_simps)
      finally show "item4 ?st' ?out 0 n h w = div_scalar 4 (to_float (item3 st board h w n))" .
    qed
    have "shape ?out = [1, K, S, S]" using sh2 by simp
    with r items show ?thesis by blast
  next
    case False
    let ?G = "gather st board"
    let ?st1 = "st @ [?G]"
    let ?b2 = "rolled \<lparr>base = length st, offset = 0, shape = [1, S, S, K], strides = ?cs\<rparr>"
    let ?g = "gather ?st1 ?b2"
    let ?out = "\<lparr>base = length ?st1 + 3, offset = 0, shape = shape ?b2, strides = c_strides (shape ?b2)\<rparr>"
    let ?st' = "?st1 @ [?g, map to_float ?g, map (div_scalar 4) (map to_float ?g),
                 map (div_scalar 4) (map to_float ?g)]"
    have sh2: "shape ?b2 = [1, K, S, S]" by (simp add: rolled_def)
    have ss2: "strides ?b2 = [S * (S * K), 1, S * K, K]" by (simp add: rolled_def)
    have bo: "base ?b2 = length st" "offset ?b2 = 0" by (simp_all add: rolled_def)
    have l2: "length (strides ?b2) = length (shape ?b2)" by (simp add: rolled_def)
    have r: "prepare_input a board st = Inr (?out, ?st')"
      unfolding prepare_input_single_copy [OF n3 rs False] cnc_result [OF l2] ..
    have items: "\<forall>n<K. \<forall>h<S. \<forall>w<S.
           item4 ?st' ?out 0 n h w = div_scalar 4 (to_float (item3 st board h w n))"
    proof (intro allI impI)
      fix n h w
      assume n: "n < K" and h: "h < S" and w: "w < S"
      have z: "(0::nat) < 1" by simp
      have "item4 ?st' ?out 0 n h w
        = div_scalar 4 (to_float (?st1 ! base ?b2 !
             (offset ?b2 + 0 * (S * (S * K)) + n * 1 + h * (S * K) + w * K)))"
        using sh2 ss2 z n h w by (rule pipeline_item4)
      also have "?st1 ! base ?b2 ! (offset ?b2 + 0 * (S * (S * K)) + n * 1 + h * (S * K) + w * K)
             = ?G ! (h * (S * K) + w * K + n)"
        unfolding bo by (simp add: ac_simps)
      also have "?G ! (h * (S * K) + w * K + n) = item3 st board h w n"
        using gather_nth3 [OF sh ss h w n, of st] by (simp add: item3_def ss)
      finally show "item4 ?st' ?out 0 n h w = div_scalar 4 (to_float (item3 st board h w n))" .
    qed
    have "shape ?out = [1, K, S, S]" using sh2 by simp
    with r items show ?thesis by blast
  qed
qed

lemma cnc_gather:
  assumes l: "length (strides b2) = length (shape b2)"
    and r: "copy_normalize_copy b2 sA = (out, st')"
  shows "\<exists>bufs. st' = sA @ bufs" and "length sA \<le> base out" and "base out < length st'"
    and "shape out = shape b2"
    and "gather (st' @ later) out = map (div_scalar 4) (map to_float (gather sA b2))"
proof -
  let ?g = "gather sA b2"
  let ?X = "map (div_scalar 4) (map to_float ?g)"
  from r cnc_result [OF l, of sA]
  have out: "out = \<lparr>base = length sA + 3, offset = 0, shape = shape b2, strides = c_strides (shape b2)\<rparr>"
    and st': "st' = sA @ [?g, map to_float ?g, ?X, ?X]"
    by simp_all
  from st' show "\<exists>bufs. st' = sA @ bufs" by blast
  from out show "length sA \<le> base out" by simp
  from out st' show "base out < length st'" by simp
  from out show "shape out = shape b2" by simp
  have lx: "length ?X = prod_list (shape b2)" using length_gather [OF l, of sA] by simp
  have "gather ((sA @ [?g, map to_float ?g]) @ ?X # (?X # later))
          \<lparr>base = length sA + 3 - 1, offset = 0, shape = shape b2, strides = c_strides (shape b2)\<rparr> = ?X"
    by (rule gather_fresh [OF lx]) simp
  have e: "st' @ later = (sA @ [?g, map to_float ?g, ?X]) @ ?X # later" using st' by simp
  have "gather ((sA @ [?g, map to_float ?g, ?X]) @ ?X # later) out = ?X"
    unfolding out by (rule gather_fresh [OF lx]) simp
  then show "gather (st' @ later) out = ?X" unfolding e .
qed

lemma cnc_repeat:
  assumes l: "length (strides b2) = length (shape b2)"
    and l': "length (strides b2') = length (shape b2')"
    and s: "shape b2' = shape b2"
    and r: "copy_normalize_copy b2 sA = (out1, st1)"
    and ext: "sB = st1 @ pre"
    and g: "gather sB b2' = gather sA b2"
  shows "\<exists>out2 st2. copy_normalize_copy b2' sB = (out2, st2)
     \<and> (\<exists>bufs. st2 = st1 @ bufs) \<and> shape out2 = shape out1
     \<and> gather st2 out2 = gather st1 out1 \<and> gather st2 out1 = gather st1 out1
     \<and> base out2 \<noteq> base out1"
proof -
  obtain out2 st2 where r2: "copy_normalize_copy b2' sB = (out2, st2)"
    by (cases "copy_normalize_copy b2' sB") auto
  let ?X = "map (div_scalar 4) (map to_float (gather sA b2))"
  from cnc_gather(1) [OF l' r2] obtain bufs where st2: "st2 = sB @ bufs" by blast
  with ext have st2': "st2 = st1 @ (pre @ bufs)" by simp
  have g1: "gather st1 out1 = ?X" using cnc_gather(5) [OF l r, of "[]"] by simp
  have g1': "gather st2 out1 = ?X" using cnc_gather(5) [OF l r, of "pre @ bufs"] st2' by simp
  have g2: "gather st2 out2 = ?X" using cnc_gather(5) [OF l' r2, of "[]"] g by simp
  have sh: "shape out2 = shape out1"
    using cnc_gather(4) [OF l' r2] cnc_gather(4) [OF l r] s by simp
  have "base out1 < length st1" using cnc_gather(3) [OF l r] .
  moreover have "length sB \<le> base out2" using cnc_gather(2) [OF l' r2] .
  ultimately have ne: "base out2 \<noteq> base out1" using ext by simp
  from st2' have ex: "\<exists>bufs. st2 = st1 @ bufs" by (rule exI)
  from g1 g1' have e1: "gather st2 out1 = gather st1 out1" by simp
  from g1 g2 have e2: "gather st2 out2 = gather st1 out1" by simp
  from r2 ex sh e2 e1 ne have "copy_normalize_copy b2' sB = (out2, st2)
     \<and> (\<exists>bufs. st2 = st1 @ bufs) \<and> shape out2 = shape out1
     \<and> gather st2 out2 = gather st1 out1 \<and> gather st2 out1 = gather st1 out1
     \<and> base out2 \<noteq> base out1"
    by simp
  then show ?thesis by - (rule exI [of _ out2], rule exI [of _ st2])
qed

lemma prepare_input_repeat_general:
  assumes l: "length (strides b2) = length (shape b2)"
    and l': "\<And>bufs. length (strides (b2' bufs)) = length (shape (b2' bufs))"
    and s: "\<And>bufs. shape (b2' bufs) = shape b2"
    and bb: "base board < length st"
    and first: "prepare_input a board st = Inr (copy_normalize_copy b2 (st @ pre0))"
    and second: "\<And>bufs. prepare_input a board (st @ bufs)
                   = Inr (copy_normalize_copy (b2' bufs) ((st @ bufs) @ pre1 bufs))"
    and g: "\<And>bufs. gather ((st @ bufs) @ pre1 bufs) (b2' bufs) = gather (st @ pre0) b2"
    and r: "prepare_input a board st = Inr (out1, st1)"
  shows "take (length st) st1 = st \<and> gather st1 board = gather st board
     \<and> length st \<le> base out1
     \<and> (\<exists>out2 st2. prepare_input a board st1 = Inr (out2, st2)
           \<and> take (length st1) st2 = st1 \<and> shape out2 = shape out1
           \<and> gather st2 out2 = gather st1 out1 \<and> gather st2 out1 = gather st1 out1
           \<and> base out2 \<noteq> base out1)"
proof -
  from first r have r1: "copy_normalize_copy b2 (st @ pre0) = (out1, st1)" by simp
  from cnc_gather(1) [OF l r1] obtain bufs0 where "st1 = (st @ pre0) @ bufs0" by blast
  then have st1: "st1 = st @ (pre0 @ bufs0)" by simp
  then have t: "take (length st) st1 = st" by simp
  have gb: "gather st1 board = gather st board"
    unfolding st1 using bb by (rule gather_append)
  have "length (st @ pre0) \<le> base out1" using cnc_gather(2) [OF l r1] .
  then have lb: "length st \<le> base out1" by simp
  have ext: "(st @ (pre0 @ bufs0)) @ pre1 (pre0 @ bufs0) = st1 @ pre1 (pre0 @ bufs0)"
    using st1 by simp
  from cnc_repeat [OF l l' [of "pre0 @ bufs0"] s [of "pre0 @ bufs0"] r1 ext g [of "pre0 @ bufs0"]]
  obtain out2 st2 where
    r2: "copy_normalize_copy (b2' (pre0 @ bufs0)) ((st @ (pre0 @ bufs0)) @ pre1 (pre0 @ bufs0))
           = (out2, st2)"
    and e: "\<exists>bufs. st2 = st1 @ bufs"
    and rest: "shape out2 = shape out1" "gather st2 out2 = gather st1 out1"
      "gather st2 out1 = gather st1 out1" "base out2 \<noteq> base out1"
    by blast
  from e have t2: "take (length st1) st2 = st1" by auto
  have p2: "prepare_input a board st1 = Inr (out2, st2)"
    unfolding st1 second [of "pre0 @ bufs0"] r2 ..
  from p2 t2 rest have "prepare_input a board st1 = Inr (out2, st2)
           \<and> take (length st1) st2 = st1 \<and> shape out2 = shape out1
           \<and> gather st2 out2 = gather st1 out1 \<and> gather st2 out1 = gather st1 out1
           \<and> base out2 \<noteq> base out1"
    by simp
  then have "\<exists>out2 st2. prepare_input a board st1 = Inr (out2, st2)
           \<and> take (length st1) st2 = st1 \<and> shape out2 = shape out1
           \<and> gather st2 out2 = gather st1 out1 \<and> gather st2 out1 = gather st1 out1
           \<and> base out2 \<noteq> base out1"
    by - (rule exI [of _ out2], rule exI [of _ st2])
  with t gb lb show ?thesis by simp
qed

text \<open>
  Claim C7. When \<open>_prepare_input\<close> returns, every buffer the store held before the call is
  unchanged (the store has only grown), so the caller's array reads as before; the result
  lives in a buffer that did not exist before the call. A second call on the same array
  returns an array of the same shape with the same elements, in yet another buffer, and
  leaves the first result as it was.
\<close>

theorem prepare_input_leaves_input:
  assumes wf: "wf_array st board"
    and r: "prepare_input a board st = Inr (out1, st1)"
  shows "take (length st) st1 = st \<and> gather st1 board = gather st board
     \<and> length st \<le> base out1
     \<and> (\<exists>out2 st2. prepare_input a board st1 = Inr (out2, st2)
           \<and> take (length st1) st2 = st1 \<and> shape out2 = shape out1
           \<and> gather st2 out2 = gather st1 out1 \<and> gather st2 out1 = gather st1 out1
           \<and> base out2 \<noteq> base out1)"
proof -
  from wf have bb: "base board < length st"
    and ls: "length (strides board) = length (shape board)"
    by (simp_all add: wf_array_def)
  consider (many) "4 \<le> ndim board" | (single) "ndim board = 3" | (few) "ndim board < 3"
    by linarith
  then show ?thesis
  proof cases
    case many
    let ?b2 = "rolled board"
    have l: "length (strides ?b2) = length (shape ?b2)" using ls by (rule rolled_lengths)
    have b2: "base ?b2 < length st" using bb by (simp add: rolled_def)
    show ?thesis
    proof (rule prepare_input_repeat_general [of ?b2 "\<lambda>bufs. ?b2" board st a "[]" "\<lambda>bufs. []", OF l l refl bb _ _ _ r])
      show "prepare_input a board st = Inr (copy_normalize_copy ?b2 (st @ []))"
        using prepare_input_many [OF many] by simp
      show "\<And>bufs. prepare_input a board (st @ bufs)
                   = Inr (copy_normalize_copy ?b2 ((st @ bufs) @ []))"
        using prepare_input_many [OF many] by simp
      show "\<And>bufs. gather ((st @ bufs) @ []) ?b2 = gather (st @ []) ?b2"
        using gather_append [OF b2] by simp
    qed
  next
    case few
    then have "prepare_input a board st = Inl AxisError" by (rule prepare_input_few)
    with r show ?thesis by simp
  next
    case single
    show ?thesis
    proof (cases "resolve_shape (1 # input_shape a) (prod_list (shape board))")
      case (Inl e)
      with single have "prepare_input a board st = Inl e" by (rule prepare_input_single_error)
      with r show ?thesis by simp
    next
      case (Inr sh)
      show ?thesis
      proof (cases "strides board = c_strides (shape board)")
        case True
        let ?b2 = "rolled (board\<lparr>shape := sh, strides := c_strides sh\<rparr>)"
        have l: "length (strides ?b2) = length (shape ?b2)"
          by (rule rolled_lengths) (simp add: length_c_strides)
        have b2: "base ?b2 < length st" using bb by (simp add: rolled_def)
        show ?thesis
        proof (rule prepare_input_repeat_general [of ?b2 "\<lambda>bufs. ?b2" board st a "[]" "\<lambda>bufs. []", OF l l refl bb _ _ _ r])
          show "prepare_input a board st = Inr (copy_normalize_copy ?b2 (st @ []))"
            using prepare_input_single_view [OF single Inr True] by simp
          show "\<And>bufs. prepare_input a board (st @ bufs)
                   = Inr (copy_normalize_copy ?b2 ((st @ bufs) @ []))"
            using prepare_input_single_view [OF single Inr True] by simp
          show "\<And>bufs. gather ((st @ bufs) @ []) ?b2 = gather (st @ []) ?b2"
            using gather_append [OF b2] by simp
        qed
      next
        case False
        let ?b2 = "rolled \<lparr>base = length st, offset = 0, shape = sh, strides = c_strides sh\<rparr>"
        let ?b2' = "\<lambda>bufs. rolled \<lparr>base = length (st @ bufs), offset = 0, shape = sh, strides = c_strides sh\<rparr>"
        have l: "length (strides ?b2) = length (shape ?b2)"
          by (rule rolled_lengths) (simp add: length_c_strides)
        have gen: "\<And>bufs. prepare_input a board (st @ bufs)
                   = Inr (copy_normalize_copy (?b2' bufs) ((st @ bufs) @ [gather st board]))"
          using prepare_input_single_copy [OF single Inr False] gather_append [OF bb] by simp
        have gg: "\<And>bufs. gather ((st @ bufs) @ [gather st board]) (?b2' bufs)
                     = gather (st @ [gather st board]) ?b2"
          by (simp add: gather_def rolled_def nth_append)
        have l': "\<And>bufs. length (strides (?b2' bufs)) = length (shape (?b2' bufs))"
          by (rule rolled_lengths) (simp add: length_c_strides)
        have s: "\<And>bufs. shape (?b2' bufs) = shape ?b2" by (simp add: rolled_def)
        show ?thesis
        proof (rule prepare_input_repeat_general [of ?b2 ?b2' board st a "[gather st board]"
                 "\<lambda>bufs. [gather st board]", OF l l' s bb _ gen gg r])
          show "prepare_input a board st = Inr (copy_normalize_copy ?b2 (st @ [gather st board]))"
            using prepare_input_single_copy [OF single Inr False] by simp
        qed
      qed
    qed
  qed
qed

lemma wf_example_single: "wf_array example_store example_single"
  by (simp add: wf_array_def example_store_def example_single_def upt_rec)

lemma wf_example_batch: "wf_array example_store example_batch"
  by (simp add: wf_array_def example_store_def example_batch_def upt_rec)

text \<open>
  Claim C6. Preprocessing an array of the store with four axes, of shape
  \<open>(B, H, W, N)\<close>, returns an array of shape \<open>(B, N, H, W)\<close> whose element
  \<open>[b, n, h, w]\<close> is the element \<open>[b, h, w, n]\<close> of the input, cast to floating point and
  divided by \<open>4.0\<close>. Preprocessing a single observation of shape
  \<open>(board_size, board_size, n_frames)\<close> returns a batch of one, of shape
  \<open>(1, n_frames, board_size, board_size)\<close>, whose element \<open>[0, n, h, w]\<close> is the element
  \<open>[h, w, n]\<close> of the observation, cast to floating point and divided by \<open>4.0\<close>.
\<close>

theorem prepare_input_layout:
  assumes wf: "wf_array st board"
  shows "(shape board = [B, H, W, N] \<longrightarrow>
           (\<exists>out st'. prepare_input a board st = Inr (out, st') \<and> shape out = [B, N, H, W]
              \<and> (\<forall>b<B. \<forall>n<N. \<forall>h<H. \<forall>w<W.
                   item4 st' out b n h w = div_scalar 4 (to_float (item4 st board b h w n)))))
       \<and> (shape board = [S, S, K] \<and> board_size a = int S \<and> n_frames a = int K \<longrightarrow>
           (\<exists>out st'. prepare_input a board st = Inr (out, st') \<and> shape out = [1, K, S, S]
              \<and> (\<forall>n<K. \<forall>h<S. \<forall>w<S.
                   item4 st' out 0 n h w = div_scalar 4 (to_float (item3 st board h w n)))))"
proof -
  from wf have ls: "length (strides board) = length (shape board)"
    by (simp add: wf_array_def)
  show ?thesis
    using prepare_input_many_items [OF ls, of B H W N a st]
      prepare_input_single_items [OF ls, of S K a st]
    by simp
qed

theorem prepare_input_layout_witness:
  "(\<exists>out st'. prepare_input example_agent example_single example_store = Inr (out, st')
       \<and> shape out = [1, 3, 2, 2] \<and> item4 st' out 0 1 1 0 = F (7 / 4))
   \<and> (\<exists>out st'. prepare_input example_agent example_batch example_store = Inr (out, st')
       \<and> shape out = [1, 3, 2, 2] \<and> item4 st' out 0 2 0 1 = F (5 / 4))"
proof -
  have s: "shape example_single = [2, 2, 3] \<and> board_size example_agent = int 2
         \<and> n_frames example_agent = int 3"
    by (simp add: example_single_def example_agent_def)
  from prepare_input_layout [OF wf_example_single, of 0 0 0 0 example_agent 2 3] s
  obtain out st' where
    r: "prepare_input example_agent example_single example_store = Inr (out, st')"
    and sh: "shape out = [1, 3, 2, 2]"
    and it: "\<forall>n<3. \<forall>h<2. \<forall>w<2.
        item4 st' out 0 n h w = div_scalar 4 (to_float (item3 example_store example_single h w n))"
    by auto
  have "item3 example_store example_single 1 0 1 = I 7"
    by (simp add: item3_def example_store_def example_single_def)
  with it have "item4 st' out 0 1 1 0 = F (7 / 4)" by simp
  with r sh have one: "\<exists>out st'. prepare_input example_agent example_single example_store = Inr (out, st')
       \<and> shape out = [1, 3, 2, 2] \<and> item4 st' out 0 1 1 0 = F (7 / 4)"
    by blast
  have b: "shape example_batch = [1, 2, 2, 3]" by (simp add: example_batch_def)
  from prepare_input_layout [OF wf_example_batch, of 1 2 2 3 example_agent 0 0] b
  obtain out' st'' where
    r': "prepare_input example_agent example_batch example_store = Inr (out', st'')"
    and sh': "shape out' = [1, 3, 2, 2]"
    and it': "\<forall>b<1. \<forall>n<3. \<forall>h<2. \<forall>w<2.
        item4 st'' out' b n h w = div_scalar 4 (to_float (item4 example_store example_batch b h w n))"
    by auto
  have "item4 example_store example_batch 0 0 1 2 = I 5"
    by (simp add: item4_def example_store_def example_batch_def)
  with it' have "item4 st'' out' 0 2 0 1 = F (5 / 4)" by simp
  with r' sh' have two: "\<exists>out st'. prepare_input example_agent example_batch example_store = Inr (out, st')
       \<and> shape out = [1, 3, 2, 2] \<and> item4 st' out 0 2 0 1 = F (5 / 4)"
    by blast
  from one two show ?thesis by simp
qed

theorem prepare_input_leaves_input_witness:
  "\<exists>out1 st1. prepare_input example_agent example_single example_store = Inr (out1, st1)
     \<and> take (length example_store) st1 = example_store
     \<and> gather st1 example_single = gather example_store example_single
     \<and> length example_store \<le> base out1
     \<and> (\<exists>out2 st2. prepare_input example_agent example_single st1 = Inr (out2, st2)
           \<and> take (length st1) st2 = st1 \<and> shape out2 = shape out1
           \<and> gather st2 out2 = gather st1 out1 \<and> gather st2 out1 = gather st1 out1
           \<and> base out2 \<noteq> base out1)"
proof -
  have ls: "length (strides example_single) = length (shape example_single)"
    by (simp add: example_single_def)
  have "shape example_single = [2, 2, 3]" "board_size example_agent = int 2"
    "n_frames example_agent = int 3"
    by (simp_all add: example_single_def example_agent_def)
  from prepare_input_single_items [OF ls this, of example_store]
  obtain out1 st1 where
    r: "prepare_input example_agent example_single example_store = Inr (out1, st1)"
    by blast
  from prepare_input_leaves_input [OF wf_example_single r] r
  show ?thesis by - (rule exI [of _ out1], rule exI [of _ st1], simp)
qed

section \<open>Loading models from files\<close>

lemma example_model_file: "model_file ''models'' 0 ''.pt'' = ''models/model_0000.pt''"
  by code_simp

lemma example_target_file: "model_file ''models'' 0 ''_target.pt'' = ''models/model_0000_target.pt''"
  by code_simp

lemma load_into_absent:
  "fs path = None \<Longrightarrow> load_into m fs path h = (h, Some FileNotFoundError)"
  by (simp add: load_into_def torch_load_def)

lemma load_model_first_absent:
  assumes "fs (model_file file_path (case iteration of None \<Rightarrow> 0 | Some i \<Rightarrow> i) ''.pt'') = None"
  shows "load_model a fs file_path iteration h = (h, Some FileNotFoundError)"
  using assms by (simp add: load_model_def load_into_absent)

lemma a2c_load_model_first_absent:
  assumes "fs (model_file file_path (case iteration of None \<Rightarrow> 0 | Some i \<Rightarrow> i) ''.pt'') = None"
  shows "a2c_load_model a fs file_path iteration h = (h, Some FileNotFoundError)"
  using assms by (simp add: a2c_load_model_def load_into_absent)

lemma load_model_target_absent:
  assumes "load_into (model a) fs (model_file file_path (case iteration of None \<Rightarrow> 0 | Some i \<Rightarrow> i) ''.pt'') h
             = (h1, None)"
    and "use_target_net a" and "target_net a = Some t"
    and "fs (model_file file_path (case iteration of None \<Rightarrow> 0 | Some i \<Rightarrow> i) ''_target.pt'') = None"
  shows "load_model a fs file_path iteration h = (h1, Some FileNotFoundError)"
  using assms by (simp add: load_model_def load_into_absent)

lemma copy_param_length: "length (tensors (copy_param sd e h)) = length (tensors h)"
  by (simp add: copy_param_def split: option.splits)

lemma copy_param_other:
  "p \<noteq> snd e \<Longrightarrow> tensors (copy_param sd e h) ! p = tensors h ! p"
  by (simp add: copy_param_def split: option.splits)

lemma fold_copy_param_length: "length (tensors (fold (copy_param sd) m h)) = length (tensors h)"
  by (induction m arbitrary: h) (simp_all add: copy_param_length)

lemma fold_copy_param_other:
  "p \<notin> snd ` set m \<Longrightarrow> tensors (fold (copy_param sd) m h) ! p = tensors h ! p"
  by (induction m arbitrary: h) (simp_all add: copy_param_other)

lemma fold_copy_param_dicts: "dicts (fold (copy_param sd) m h) = dicts h"
  by (induction m arbitrary: h) (simp_all add: copy_param_def split: option.splits)

lemma copy_param_loaded:
  assumes "loadable sd h e" and "snd e < length (tensors h)"
  shows "map_of sd (fst e) = Some (data (tensors (copy_param sd e h) ! snd e))"
  using assms by (auto simp: loadable_def copy_param_def split: option.splits)

lemma copy_param_data_length:
  "length (data (tensors (copy_param sd e h) ! p)) = length (data (tensors h ! p))"
proof (cases "p = snd e \<and> p < length (tensors h)")
  case True
  then show ?thesis by (simp add: copy_param_def split: option.splits)
next
  case False
  then have "tensors (copy_param sd e h) ! p = tensors h ! p"
    by (cases "p = snd e") (auto simp: copy_param_def list_update_beyond split: option.splits)
  then show ?thesis by simp
qed

lemma loadable_copy_param:
  "loadable sd (copy_param sd e h) e' = loadable sd h e'"
  by (simp add: loadable_def copy_param_data_length split: option.splits)

lemma fold_copy_param_loaded:
  assumes "list_all (loadable sd h) m" and "distinct (map snd m)"
    and "list_all (\<lambda>e. snd e < length (tensors h)) m"
  shows "list_all (\<lambda>e. map_of sd (fst e) = Some (data (tensors (fold (copy_param sd) m h) ! snd e))) m"
  using assms
proof (induction m arbitrary: h)
  case Nil
  then show ?case by simp
next
  case (Cons e m)
  let ?h = "copy_param sd e h"
  from Cons.prems have le: "loadable sd h e" and ie: "snd e < length (tensors h)"
    and ne: "snd e \<notin> snd ` set m" by auto
  have here: "map_of sd (fst e) = Some (data (tensors (fold (copy_param sd) m ?h) ! snd e))"
    using fold_copy_param_other [OF ne, of sd ?h] copy_param_loaded [OF le ie] by simp
  have "loadable sd ?h = loadable sd h" by (rule ext) (rule loadable_copy_param)
  then have "list_all (loadable sd ?h) m"
    using Cons.prems(1) by simp
  moreover have "distinct (map snd m)" using Cons.prems(2) by simp
  moreover have "list_all (\<lambda>e. snd e < length (tensors ?h)) m"
    using Cons.prems(3) by (simp add: copy_param_length)
  ultimately have "list_all (\<lambda>e. map_of sd (fst e)
        = Some (data (tensors (fold (copy_param sd) m ?h) ! snd e))) m"
    by (rule Cons.IH)
  with here show ?case by simp
qed

lemma load_into_success:
  assumes r: "load_into m fs path h = (h1, None)"
    and d: "distinct (map snd m)"
    and i: "list_all (\<lambda>e. snd e < length (tensors h)) m"
  shows "\<exists>sd. fs path = Some sd
     \<and> list_all (\<lambda>e. map_of sd (fst e) = Some (data (tensors h1 ! snd e))) m
     \<and> length (tensors h1) = length (tensors h)
     \<and> (\<forall>p. p \<notin> snd ` set m \<longrightarrow> tensors h1 ! p = tensors h ! p)"
proof (cases "fs path")
  case None
  with r show ?thesis by (simp add: load_into_def torch_load_def)
next
  case (Some sd)
  with r have l: "load_state_dict m sd h = (h1, None)" by (simp add: load_into_def torch_load_def)
  then have h1: "h1 = fold (copy_param sd) m h" and ok: "list_all (loadable sd h) m"
    by (auto simp: load_state_dict_def split: if_splits)
  have a: "list_all (\<lambda>e. map_of sd (fst e) = Some (data (tensors h1 ! snd e))) m"
    unfolding h1 using ok d i by (rule fold_copy_param_loaded)
  have b: "length (tensors h1) = length (tensors h)" unfolding h1 by (rule fold_copy_param_length)
  have c: "\<forall>p. p \<notin> snd ` set m \<longrightarrow> tensors h1 ! p = tensors h ! p"
    unfolding h1 by (simp add: fold_copy_param_other)
  from Some a b c show ?thesis by simp
qed

lemma a2c_load_model_full_absent:
  assumes "load_into (model a) fs 
           (model_file file_path (case iteration of None \<Rightarrow> 0 | Some i \<Rightarrow> i) ''.pt'') h = (h1, None)"
    and "fs 
           (model_file file_path (case iteration of None \<Rightarrow> 0 | Some i \<Rightarrow> i) ''_full.pt'') = None"
  shows "a2c_load_model a fs file_path iteration h = (h1, Some FileNotFoundError)"
  using assms by (simp add: a2c_load_model_def load_into_absent)

lemma a2c_load_model_values_absent:
  assumes "load_into (model a) fs 
           (model_file file_path (case iteration of None \<Rightarrow> 0 | Some i \<Rightarrow> i) ''.pt'') h = (h1, None)"
    and "load_into (full_model a) fs 
           (model_file file_path (case iteration of None \<Rightarrow> 0 | Some i \<Rightarrow> i) ''_full.pt'') h1 = (h2, None)"
    and "use_target_net a"
    and "fs 
           (model_file file_path (case iteration of None \<Rightarrow> 0 | Some i \<Rightarrow> i) ''_values.pt'') = None"
  shows "a2c_load_model a fs file_path iteration h = (h2, Some FileNotFoundError)"
  using assms by (simp add: a2c_load_model_def load_into_absent)

lemma a2c_load_model_target_absent:
  assumes "load_into (model a) fs 
           (model_file file_path (case iteration of None \<Rightarrow> 0 | Some i \<Rightarrow> i) ''.pt'') h = (h1, None)"
    and "load_into (full_model a) fs 
           (model_file file_path (case iteration of None \<Rightarrow> 0 | Some i \<Rightarrow> i) ''_full.pt'') h1 = (h2, None)"
    and "use_target_net a"
    and "load_into (values_model a) fs 
           (model_file file_path (case iteration of None \<Rightarrow> 0 | Some i \<Rightarrow> i) ''_values.pt'') h2 = (h3, None)"
    and "target_net a = Some t"
    and "fs 
           (model_file file_path (case iteration of None \<Rightarrow> 0 | Some i \<Rightarrow> i) ''_target.pt'') = None"
  shows "a2c_load_model a fs file_path iteration h = (h3, Some FileNotFoundError)"
  using assms by (simp add: a2c_load_model_def load_into_absent)

lemma example_load_dqn:
  "load_into [(''out.weight'', 0)] (example_saved [''models/model_0000.pt'']) ''models/model_0000.pt'' (example_tensors [1, 2])
     = (example_tensors [10, 2], None)"
  by (simp add: load_into_def torch_load_def example_saved_def example_tensors_def
      load_state_dict_def copy_param_def loadable_def)

lemma example_full_file: "model_file ''models'' 0 ''_full.pt'' = ''models/model_0000_full.pt''"
  by code_simp

lemma example_values_file: "model_file ''models'' 0 ''_values.pt'' = ''models/model_0000_values.pt''"
  by code_simp

lemmas example_paths = example_model_file example_target_file example_full_file example_values_file

lemma example_load_1:
  "load_into [(''out.weight'', 0)] (example_saved paths) ''models/model_0000.pt'' (example_tensors [1, 2, 3, 4])
     = (if ''models/model_0000.pt'' \<in> set paths then (example_tensors [10, 2, 3, 4], None)
        else (example_tensors [1, 2, 3, 4], Some FileNotFoundError))"
  by (simp add: load_into_def torch_load_def example_saved_def example_tensors_def
      load_state_dict_def copy_param_def loadable_def)

lemma example_load_2:
  "load_into [(''out.weight'', 1)] (example_saved paths) ''models/model_0000_full.pt''
       (example_tensors [10, 2, 3, 4])
     = (if ''models/model_0000_full.pt'' \<in> set paths then (example_tensors [10, 10, 3, 4], None)
        else (example_tensors [10, 2, 3, 4], Some FileNotFoundError))"
  by (simp add: load_into_def torch_load_def example_saved_def example_tensors_def
      load_state_dict_def copy_param_def loadable_def)

lemma example_load_3:
  "load_into [(''out.weight'', 2)] (example_saved paths) ''models/model_0000_values.pt''
       (example_tensors [10, 10, 3, 4])
     = (if ''models/model_0000_values.pt'' \<in> set paths then (example_tensors [10, 10, 10, 4], None)
        else (example_tensors [10, 10, 3, 4], Some FileNotFoundError))"
  by (simp add: load_into_def torch_load_def example_saved_def example_tensors_def
      load_state_dict_def copy_param_def loadable_def)

text \<open>
  Claim C9, as stated, fails when the file that is absent is not the first one. Here
  \<open>model_0000.pt\<close> exists and \<open>model_0000_target.pt\<close> does not: \<open>load_model\<close> raises
  \<open>FileNotFoundError\<close>, and the model's parameter, \<open>1\<close> before the call, is \<open>10\<close> after it.
\<close>

theorem load_model_partial_counterexample:
  "load_model example_dqn (example_saved [''models/model_0000.pt'']) ''models'' None (example_tensors [1, 2])
     = (example_tensors [10, 2], Some FileNotFoundError)
   \<and> module_params (example_tensors [1, 2]) (model example_dqn) = [(''out.weight'', [Fin 1])]
   \<and> module_params (example_tensors [10, 2]) (model example_dqn) = [(''out.weight'', [Fin 10])]"
proof -
  have t: "example_saved [''models/model_0000.pt''] (model_file ''models'' 0 ''_target.pt'') = None"
    unfolding example_target_file by (simp add: example_saved_def)
  have l: "load_into (model example_dqn) (example_saved [''models/model_0000.pt'']) (model_file ''models'' 0 ''.pt'')
             (example_tensors [1, 2]) = (example_tensors [10, 2], None)"
    unfolding example_model_file using example_load_dqn by (simp add: example_dqn_def)
  have "load_model example_dqn (example_saved [''models/model_0000.pt'']) ''models'' None (example_tensors [1, 2])
     = (example_tensors [10, 2], Some FileNotFoundError)"
    by (rule load_model_target_absent [where t = "[(''out.weight'', 1)]"])
       (simp_all add: l t, simp_all add: example_dqn_def)
  moreover have "module_params (example_tensors [1, 2]) (model example_dqn) = [(''out.weight'', [Fin 1])]"
    by (simp add: module_params_def example_tensors_def example_dqn_def)
  moreover have "module_params (example_tensors [10, 2]) (model example_dqn) = [(''out.weight'', [Fin 10])]"
    by (simp add: module_params_def example_tensors_def example_dqn_def)
  ultimately show ?thesis by simp
qed

text \<open>
  Claim C9, amended. An absent file makes \<open>load_model\<close> raise \<open>FileNotFoundError\<close> to
  the caller. When the absent file is the first one (\<open>model_XXXX.pt\<close>), nothing has
  changed. When it is a later one, the heap is the one the loads before it left: the load
  is not rolled back. A load that succeeded has put the file's values into the parameters
  of the module it loaded and has left every other tensor as it was. This holds for
  \<open>DeepQLearningAgent\<close> (agent \<open>a\<close>) and for \<open>AdvantageActorCriticAgent\<close> (agent \<open>b\<close>).
\<close>

theorem load_model_absent_file:
  "(fs 
           (model_file file_path (case iteration of None \<Rightarrow> 0 | Some i \<Rightarrow> i) ''.pt'') = None \<longrightarrow>
      load_model a fs file_path iteration h = (h, Some FileNotFoundError)
    \<and> a2c_load_model b fs file_path iteration h = (h, Some FileNotFoundError))
   \<and> (load_into (model a) fs 
           (model_file file_path (case iteration of None \<Rightarrow> 0 | Some i \<Rightarrow> i) ''.pt'') h = (h1, None)
       \<and> use_target_net a \<and> target_net a = Some t
       \<and> fs 
           (model_file file_path (case iteration of None \<Rightarrow> 0 | Some i \<Rightarrow> i) ''_target.pt'') = None \<longrightarrow>
      load_model a fs file_path iteration h = (h1, Some FileNotFoundError))
   \<and> (load_into (model b) fs 
           (model_file file_path (case iteration of None \<Rightarrow> 0 | Some i \<Rightarrow> i) ''.pt'') h = (h1, None)
       \<and> fs 
           (model_file file_path (case iteration of None \<Rightarrow> 0 | Some i \<Rightarrow> i) ''_full.pt'') = None \<longrightarrow>
      a2c_load_model b fs file_path iteration h = (h1, Some FileNotFoundError))
   \<and> (load_into (model b) fs 
           (model_file file_path (case iteration of None \<Rightarrow> 0 | Some i \<Rightarrow> i) ''.pt'') h = (h1, None)
       \<and> load_into (full_model b) fs 
           (model_file file_path (case iteration of None \<Rightarrow> 0 | Some i \<Rightarrow> i) ''_full.pt'') h1 = (h2, None)
       \<and> use_target_net b
       \<and> fs 
           (model_file file_path (case iteration of None \<Rightarrow> 0 | Some i \<Rightarrow> i) ''_values.pt'') = None \<longrightarrow>
      a2c_load_model b fs file_path iteration h = (h2, Some FileNotFoundError))
   \<and> (load_into (model b) fs 
           (model_file file_path (case iteration of None \<Rightarrow> 0 | Some i \<Rightarrow> i) ''.pt'') h = (h1, None)
       \<and> load_into (full_model b) fs 
           (model_file file_path (case iteration of None \<Rightarrow> 0 | Some i \<Rightarrow> i) ''_full.pt'') h1 = (h2, None)
       \<and> use_target_net b
       \<and> load_into (values_model b) fs 
           (model_file file_path (case iteration of None \<Rightarrow> 0 | Some i \<Rightarrow> i) ''_values.pt'') h2 = (h3, None)
       \<and> target_net b = Some t
       \<and> fs 
           (model_file file_path (case iteration of None \<Rightarrow> 0 | Some i \<Rightarrow> i) ''_target.pt'') = None \<longrightarrow>
      a2c_load_model b fs file_path iteration h = (h3, Some FileNotFoundError))
   \<and> (load_into m fs path h = (h1, None) \<and> distinct (map snd m)
       \<and> list_all (\<lambda>e. snd e < length (tensors h)) m \<longrightarrow>
      (\<exists>sd. fs path = Some sd
         \<and> list_all (\<lambda>e. map_of sd (fst e) = Some (data (tensors h1 ! snd e))) m
         \<and> length (tensors h1) = length (tensors h)
         \<and> (\<forall>p. p \<notin> snd ` set m \<longrightarrow> tensors h1 ! p = tensors h ! p)))"
proof (intro conjI impI)
  assume "fs 
           (model_file file_path (case iteration of None \<Rightarrow> 0 | Some i \<Rightarrow> i) ''.pt'') = None"
  then show "load_model a fs file_path iteration h = (h, Some FileNotFoundError)"
    by (rule load_model_first_absent)
next
  assume "fs 
           (model_file file_path (case iteration of None \<Rightarrow> 0 | Some i \<Rightarrow> i) ''.pt'') = None"
  then show "a2c_load_model b fs file_path iteration h = (h, Some FileNotFoundError)"
    by (rule a2c_load_model_first_absent)
next
  assume "load_into (model a) fs 
           (model_file file_path (case iteration of None \<Rightarrow> 0 | Some i \<Rightarrow> i) ''.pt'') h = (h1, None)
       \<and> use_target_net a \<and> target_net a = Some t
       \<and> fs 
           (model_file file_path (case iteration of None \<Rightarrow> 0 | Some i \<Rightarrow> i) ''_target.pt'') = None"
  then show "load_model a fs file_path iteration h = (h1, Some FileNotFoundError)"
    using load_model_target_absent [of a fs file_path iteration h h1 t] by simp
next
  assume "load_into (model b) fs 
           (model_file file_path (case iteration of None \<Rightarrow> 0 | Some i \<Rightarrow> i) ''.pt'') h = (h1, None)
       \<and> fs 
           (model_file file_path (case iteration of None \<Rightarrow> 0 | Some i \<Rightarrow> i) ''_full.pt'') = None"
  then show "a2c_load_model b fs file_path iteration h = (h1, Some FileNotFoundError)"
    using a2c_load_model_full_absent [of b fs file_path iteration h h1] by simp
next
  assume "load_into (model b) fs 
           (model_file file_path (case iteration of None \<Rightarrow> 0 | Some i \<Rightarrow> i) ''.pt'') h = (h1, None)
       \<and> load_into (full_model b) fs 
           (model_file file_path (case iteration of None \<Rightarrow> 0 | Some i \<Rightarrow> i) ''_full.pt'') h1 = (h2, None)
       \<and> use_target_net b
       \<and> fs 
           (model_file file_path (case iteration of None \<Rightarrow> 0 | Some i \<Rightarrow> i) ''_values.pt'') = None"
  then show "a2c_load_model b fs file_path iteration h = (h2, Some FileNotFoundError)"
    using a2c_load_model_values_absent [of b fs file_path iteration h h1 h2] by simp
next
  assume "load_into (model b) fs 
           (model_file file_path (case iteration of None \<Rightarrow> 0 | Some i \<Rightarrow> i) ''.pt'') h = (h1, None)
       \<and> load_into (full_model b) fs 
           (model_file file_path (case iteration of None \<Rightarrow> 0 | Some i \<Rightarrow> i) ''_full.pt'') h1 = (h2, None)
       \<and> use_target_net b
       \<and> load_into (values_model b) fs 
           (model_file file_path (case iteration of None \<Rightarrow> 0 | Some i \<Rightarrow> i) ''_values.pt'') h2 = (h3, None)
       \<and> target_net b = Some t
       \<and> fs 
           (model_file file_path (case iteration of None \<Rightarrow> 0 | Some i \<Rightarrow> i) ''_target.pt'') = None"
  then show "a2c_load_model b fs file_path iteration h = (h3, Some FileNotFoundError)"
    using a2c_load_model_target_absent [of b fs file_path iteration h h1 h2 h3 t] by simp
next
  assume "load_into m fs path h = (h1, None) \<and> distinct (map snd m)
       \<and> list_all (\<lambda>e. snd e < length (tensors h)) m"
  then show "\<exists>sd. fs path = Some sd
         \<and> list_all (\<lambda>e. map_of sd (fst e) = Some (data (tensors h1 ! snd e))) m
         \<and> length (tensors h1) = length (tensors h)
         \<and> (\<forall>p. p \<notin> snd ` set m \<longrightarrow> tensors h1 ! p = tensors h ! p)"
    using load_into_success [of m fs path h h1] by simp
qed

theorem load_model_absent_file_witness:
  "load_model example_dqn (example_saved []) ''models'' None (example_tensors [1, 2])
     = (example_tensors [1, 2], Some FileNotFoundError)
   \<and> a2c_load_model example_a2c (example_saved []) ''models'' None (example_tensors [1, 2, 3, 4])
     = (example_tensors [1, 2, 3, 4], Some FileNotFoundError)
   \<and> load_model example_dqn (example_saved [''models/model_0000.pt'']) ''models'' None (example_tensors [1, 2])
     = (example_tensors [10, 2], Some FileNotFoundError)
   \<and> a2c_load_model example_a2c (example_saved [''models/model_0000.pt'']) ''models'' None (example_tensors [1, 2, 3, 4])
     = (example_tensors [10, 2, 3, 4], Some FileNotFoundError)
   \<and> a2c_load_model example_a2c (example_saved [''models/model_0000.pt'', ''models/model_0000_full.pt'']) ''models'' None (example_tensors [1, 2, 3, 4])
     = (example_tensors [10, 10, 3, 4], Some FileNotFoundError)
   \<and> a2c_load_model example_a2c (example_saved [''models/model_0000.pt'', ''models/model_0000_full.pt'', ''models/model_0000_values.pt'']) ''models'' None (example_tensors [1, 2, 3, 4])
     = (example_tensors [10, 10, 10, 4], Some FileNotFoundError)
   \<and> (\<exists>sd. example_saved [''models/model_0000.pt''] ''models/model_0000.pt'' = Some sd
         \<and> map_of sd ''out.weight'' = Some (data (tensors (example_tensors [10, 2]) ! 0))
         \<and> tensors (example_tensors [10, 2]) ! 1 = tensors (example_tensors [1, 2]) ! 1)"
proof -
  have s0: "example_saved [] (model_file ''models'' 0 ''.pt'') = None"
    by (simp add: example_saved_def)
  have s1: "example_saved [''models/model_0000.pt''] (model_file ''models'' 0 ''_target.pt'') = None"
    "example_saved [''models/model_0000.pt''] (model_file ''models'' 0 ''_full.pt'') = None"
    unfolding example_paths by (simp_all add: example_saved_def)
  have s2: "example_saved [''models/model_0000.pt'', ''models/model_0000_full.pt''] (model_file ''models'' 0 ''_values.pt'') = None"
    unfolding example_paths by (simp add: example_saved_def)
  have s3: "example_saved [''models/model_0000.pt'', ''models/model_0000_full.pt'', ''models/model_0000_values.pt''] (model_file ''models'' 0 ''_target.pt'') = None"
    unfolding example_paths by (simp add: example_saved_def)
  have ld: "load_into (model example_dqn) (example_saved [''models/model_0000.pt'']) (model_file ''models'' 0 ''.pt'')
             (example_tensors [1, 2]) = (example_tensors [10, 2], None)"
    unfolding example_paths using example_load_dqn by (simp add: example_dqn_def)
  have l1: "\<And>paths. ''models/model_0000.pt'' \<in> set paths \<Longrightarrow>
             load_into (model example_a2c) (example_saved paths) (model_file ''models'' 0 ''.pt'')
             (example_tensors [1, 2, 3, 4]) = (example_tensors [10, 2, 3, 4], None)"
    unfolding example_paths using example_load_1 by (simp add: example_a2c_def)
  have l2: "\<And>paths. ''models/model_0000_full.pt'' \<in> set paths \<Longrightarrow>
             load_into (full_model example_a2c) (example_saved paths)
             (model_file ''models'' 0 ''_full.pt'')
             (example_tensors [10, 2, 3, 4]) = (example_tensors [10, 10, 3, 4], None)"
    unfolding example_paths using example_load_2 by (simp add: example_a2c_def)
  have l3: "\<And>paths. ''models/model_0000_values.pt'' \<in> set paths \<Longrightarrow>
             load_into (values_model example_a2c) (example_saved paths)
             (model_file ''models'' 0 ''_values.pt'')
             (example_tensors [10, 10, 3, 4]) = (example_tensors [10, 10, 10, 4], None)"
    unfolding example_paths using example_load_3 by (simp add: example_a2c_def)
  have u: "use_target_net example_dqn" "target_net example_dqn = Some [(''out.weight'', 1)]"
    "use_target_net example_a2c" "target_net example_a2c = Some [(''out.weight'', 3)]"
    by (simp_all add: example_dqn_def example_a2c_def)
  have w1: "load_model example_dqn (example_saved []) ''models'' None (example_tensors [1, 2])
     = (example_tensors [1, 2], Some FileNotFoundError)"
    using load_model_absent_file [where fs = "example_saved []" and a = example_dqn
        and h = "example_tensors [1, 2]" and b = example_a2c and file_path = "''models''" and iteration = None,
        THEN conjunct1] s0
    by simp
  have w1b: "a2c_load_model example_a2c (example_saved []) ''models'' None (example_tensors [1, 2, 3, 4])
     = (example_tensors [1, 2, 3, 4], Some FileNotFoundError)"
    using load_model_absent_file [where fs = "example_saved []" and b = example_a2c
        and h = "example_tensors [1, 2, 3, 4]" and a = example_dqn and file_path = "''models''" and iteration = None,
        THEN conjunct1] s0
    by simp
  have w2: "load_model example_dqn (example_saved [''models/model_0000.pt'']) ''models'' None (example_tensors [1, 2])
     = (example_tensors [10, 2], Some FileNotFoundError)"
    using load_model_absent_file [where fs = "example_saved [''models/model_0000.pt'']" and a = example_dqn
        and h = "example_tensors [1, 2]" and ?h1.0 = "example_tensors [10, 2]"
        and t = "[(''out.weight'', 1)]" and file_path = "''models''" and iteration = None,
        THEN conjunct2, THEN conjunct1] ld u s1
    by simp
  have w3: "a2c_load_model example_a2c (example_saved [''models/model_0000.pt'']) ''models'' None (example_tensors [1, 2, 3, 4])
     = (example_tensors [10, 2, 3, 4], Some FileNotFoundError)"
    using load_model_absent_file [where fs = "example_saved [''models/model_0000.pt'']" and b = example_a2c
        and h = "example_tensors [1, 2, 3, 4]" and ?h1.0 = "example_tensors [10, 2, 3, 4]" and file_path = "''models''" and iteration = None,
        THEN conjunct2, THEN conjunct2, THEN conjunct1] l1 [of "[''models/model_0000.pt'']"] s1
    by simp
  have w4: "a2c_load_model example_a2c (example_saved [''models/model_0000.pt'', ''models/model_0000_full.pt'']) ''models'' None (example_tensors [1, 2, 3, 4])
     = (example_tensors [10, 10, 3, 4], Some FileNotFoundError)"
    using load_model_absent_file [where fs = "example_saved [''models/model_0000.pt'', ''models/model_0000_full.pt'']" and b = example_a2c
        and h = "example_tensors [1, 2, 3, 4]" and ?h1.0 = "example_tensors [10, 2, 3, 4]"
        and ?h2.0 = "example_tensors [10, 10, 3, 4]" and file_path = "''models''" and iteration = None,
        THEN conjunct2, THEN conjunct2, THEN conjunct2, THEN conjunct1] l1 [of "[''models/model_0000.pt'', ''models/model_0000_full.pt'']"] l2 [of "[''models/model_0000.pt'', ''models/model_0000_full.pt'']"] u s2
    by simp
  have w5: "a2c_load_model example_a2c (example_saved [''models/model_0000.pt'', ''models/model_0000_full.pt'', ''models/model_0000_values.pt'']) ''models'' None (example_tensors [1, 2, 3, 4])
     = (example_tensors [10, 10, 10, 4], Some FileNotFoundError)"
    using load_model_absent_file [where fs = "example_saved [''models/model_0000.pt'', ''models/model_0000_full.pt'', ''models/model_0000_values.pt'']" and b = example_a2c
        and h = "example_tensors [1, 2, 3, 4]" and ?h1.0 = "example_tensors [10, 2, 3, 4]"
        and ?h2.0 = "example_tensors [10, 10, 3, 4]" and ?h3.0 = "example_tensors [10, 10, 10, 4]"
        and t = "[(''out.weight'', 3)]" and file_path = "''models''" and iteration = None,
        THEN conjunct2, THEN conjunct2, THEN conjunct2, THEN conjunct2, THEN conjunct1] l1 [of "[''models/model_0000.pt'', ''models/model_0000_full.pt'', ''models/model_0000_values.pt'']"] l2 [of "[''models/model_0000.pt'', ''models/model_0000_full.pt'', ''models/model_0000_values.pt'']"] l3 [of "[''models/model_0000.pt'', ''models/model_0000_full.pt'', ''models/model_0000_values.pt'']"] u s3
    by simp
  have w6: "\<exists>sd. example_saved [''models/model_0000.pt''] ''models/model_0000.pt'' = Some sd
         \<and> map_of sd ''out.weight'' = Some (data (tensors (example_tensors [10, 2]) ! 0))
         \<and> tensors (example_tensors [10, 2]) ! 1 = tensors (example_tensors [1, 2]) ! 1"
    using load_model_absent_file [where fs = "example_saved [''models/model_0000.pt'']" and m = "[(''out.weight'', 0)]"
        and path = "''models/model_0000.pt''" and h = "example_tensors [1, 2]"
        and ?h1.0 = "example_tensors [10, 2]",
        THEN conjunct2, THEN conjunct2, THEN conjunct2, THEN conjunct2, THEN conjunct2] example_load_dqn
    by (simp add: example_tensors_def)
  from w1 w1b w2 w3 w4 w5 w6 show ?thesis by simp
qed

section \<open>Synchronizing the target network\<close>

lemma dict_setitem_tensors: "tensors (dict_setitem d k v h) = tensors h"
  by (simp add: dict_setitem_def)

lemma copy_entries_tensors:
  "copy_entries m_dict t_dict keys h = Inr h' \<Longrightarrow> tensors h' = tensors h"
proof (induction keys arbitrary: h)
  case Nil
  then show ?case by simp
next
  case (Cons key keys)
  from Cons.prems obtain v where
    "copy_entries m_dict t_dict keys (dict_setitem t_dict key v h) = Inr h'"
    by (auto split: sum.splits)
  from Cons.IH [OF this] show ?case by (simp add: dict_setitem_tensors)
qed

lemma update_target_net_tensors:
  assumes "update_target_net a h = Inr h'"
  shows "tensors h' = tensors h"
proof (cases "use_target_net a")
  case False
  with assms show ?thesis by (simp add: update_target_net_def)
next
  case True
  with assms obtain t where
    c: "copy_entries (length (dicts h)) (Suc (length (dicts h)))
          (dict_keys (h\<lparr>dicts := dicts h @ [model a, t]\<rparr>) (length (dicts h)))
          (h\<lparr>dicts := dicts h @ [model a, t]\<rparr>) = Inr h'"
    by (auto simp: update_target_net_def state_dict_def split: option.splits)
  from copy_entries_tensors [OF c] show ?thesis by simp
qed

lemma module_params_cong:
  "tensors h' = tensors h \<Longrightarrow> module_params h' m = module_params h m"
  by (simp add: module_params_def)

lemma update_target_net_params:
  assumes "update_target_net a h = Inr h'"
  shows "module_params h' m = module_params h m"
  using update_target_net_tensors [OF assms] by (rule module_params_cong)

text \<open>
  Claim C1. \<open>update_target_net\<close> does not copy the model's parameters into the target
  network. Both state dictionaries are new objects; the loop rebinds the entries of the
  new dictionary \<open>t_dict\<close> and writes to no tensor (lemma \<open>update_target_net_tensors\<close>).
  Here the model's parameter is \<open>1\<close> and the target's is \<open>2\<close>; after the call the
  target's parameter is still \<open>2\<close>, and only the discarded dictionary refers to the
  model's tensor.
\<close>

theorem update_target_net_keeps_target:
  "update_target_net example_dqn (example_tensors [1, 2])
     = Inr ((example_tensors [1, 2])\<lparr>dicts := [[(''out.weight'', 0)], [(''out.weight'', 0)]]\<rparr>)
   \<and> target_net example_dqn = Some [(''out.weight'', 1)]
   \<and> module_params ((example_tensors [1, 2])\<lparr>dicts := [[(''out.weight'', 0)], [(''out.weight'', 0)]]\<rparr>)
        (model example_dqn) = [(''out.weight'', [Fin 1])]
   \<and> module_params ((example_tensors [1, 2])\<lparr>dicts := [[(''out.weight'', 0)], [(''out.weight'', 0)]]\<rparr>)
        [(''out.weight'', 1)] = [(''out.weight'', [Fin 2])]"
  by (simp add: update_target_net_def example_dqn_def example_tensors_def state_dict_def
      dict_keys_def dict_getitem_def dict_setitem_def module_params_def)

section \<open>The training step of the Q-learning agent\<close>

lemma map_data_update_grad:
  "map data (ts[p := (ts ! p)\<lparr>grad := g\<rparr>]) = map data ts"
proof (cases "p < length ts")
  case True
  then show ?thesis by (simp add: map_update list_update_same_conv)
next
  case False
  then show ?thesis by (simp add: list_update_beyond)
qed

lemma zero_grad_Cons:
  "zero_grad (p # ps) h
     = zero_grad ps (h\<lparr>tensors := (tensors h)[p := (tensors h ! p)\<lparr>grad := None\<rparr>]\<rparr>)"
  by (simp add: zero_grad_def)

lemma zero_grad_data: "map data (tensors (zero_grad ps h)) = map data (tensors h)"
proof (induction ps arbitrary: h)
  case Nil
  then show ?case by (simp add: zero_grad_def)
next
  case (Cons p ps)
  show ?case unfolding zero_grad_Cons Cons.IH by (simp add: map_data_update_grad)
qed

lemma zero_grad_length: "length (tensors (zero_grad ps h)) = length (tensors h)"
  using zero_grad_data [of ps h] by (metis length_map)

lemma zero_grad_grad:
  "q < length (tensors h) \<Longrightarrow>
   grad (tensors (zero_grad ps h) ! q) = (if q \<in> set ps then None else grad (tensors h ! q))"
proof (induction ps arbitrary: h)
  case Nil
  then show ?case by (simp add: zero_grad_def)
next
  case (Cons p ps)
  let ?h = "h\<lparr>tensors := (tensors h)[p := (tensors h ! p)\<lparr>grad := None\<rparr>]\<rparr>"
  from Cons.prems have q: "q < length (tensors ?h)" by simp
  have "grad (tensors ?h ! q) = (if q = p then None else grad (tensors h ! q))"
    using Cons.prems by (simp add: nth_list_update)
  then show ?case unfolding zero_grad_Cons Cons.IH [OF q] by auto
qed

lemma backward_Cons:
  "backward g (e # m) h
     = backward g m (h\<lparr>tensors := (tensors h)[snd e := (tensors h ! snd e)
             \<lparr>grad := Some (case grad (tensors h ! snd e) of
                              None \<Rightarrow> g (fst e)
                            | Some old \<Rightarrow> map2 fl_add old (g (fst e)))\<rparr>]\<rparr>)"
  by (simp add: backward_def)

lemma backward_data: "map data (tensors (backward g m h)) = map data (tensors h)"
proof (induction m arbitrary: h)
  case Nil
  then show ?case by (simp add: backward_def)
next
  case (Cons e m)
  show ?case unfolding backward_Cons Cons.IH by (simp add: map_data_update_grad)
qed

lemma backward_length: "length (tensors (backward g m h)) = length (tensors h)"
  using backward_data [of g m h] by (metis length_map)

lemma backward_other:
  "q \<notin> snd ` set m \<Longrightarrow> tensors (backward g m h) ! q = tensors h ! q"
proof (induction m arbitrary: h)
  case Nil
  then show ?case by (simp add: backward_def)
next
  case (Cons e m)
  from Cons.prems have "q \<notin> snd ` set m" and "q \<noteq> snd e" by auto
  then show ?case unfolding backward_Cons using Cons.IH by simp
qed

lemma step_Cons:
  "step upd (p # ps) h
     = step upd ps (case grad (tensors h ! p) of
                     None \<Rightarrow> h
                   | Some g \<Rightarrow> h\<lparr>tensors := (tensors h)[p := (tensors h ! p)
                                    \<lparr>data := upd (data (tensors h ! p)) g\<rparr>]\<rparr>)"
  by (simp add: step_def)

lemma step_without_gradients:
  "(\<forall>p \<in> set ps. p < length (tensors h) \<longrightarrow> grad (tensors h ! p) = None) \<Longrightarrow>
   step upd ps h = h"
proof (induction ps arbitrary: h)
  case Nil
  then show ?case by (simp add: step_def)
next
  case (Cons p ps)
  have first: "(case grad (tensors h ! p) of
                     None \<Rightarrow> h
                   | Some g \<Rightarrow> h\<lparr>tensors := (tensors h)[p := (tensors h ! p)
                                    \<lparr>data := upd (data (tensors h ! p)) g\<rparr>]\<rparr>) = h"
  proof (cases "p < length (tensors h)")
    case True
    with Cons.prems have "grad (tensors h ! p) = None" by simp
    then show ?thesis by simp
  next
    case False
    then show ?thesis by (simp add: list_update_beyond split: option.splits)
  qed
  from Cons.prems have "\<forall>p \<in> set ps. p < length (tensors h) \<longrightarrow> grad (tensors h ! p) = None"
    by simp
  then have "step upd ps h = h" by (rule Cons.IH)
  then show ?case unfolding step_Cons first .
qed

lemma optimizer_round_frozen:
  assumes dis: "set ps \<inter> snd ` set m = {}"
  shows "map data (tensors (step upd ps (backward g m (zero_grad ps h)))) = map data (tensors h)"
proof -
  let ?h1 = "zero_grad ps h"
  let ?h2 = "backward g m ?h1"
  have none: "\<forall>p \<in> set ps. p < length (tensors ?h2) \<longrightarrow> grad (tensors ?h2 ! p) = None"
  proof (intro ballI impI)
    fix p
    assume p: "p \<in> set ps" and l: "p < length (tensors ?h2)"
    from l have l0: "p < length (tensors h)" by (simp add: backward_length zero_grad_length)
    from p dis have "p \<notin> snd ` set m" by auto
    then have "tensors ?h2 ! p = tensors ?h1 ! p" by (rule backward_other)
    then show "grad (tensors ?h2 ! p) = None" using zero_grad_grad [OF l0, of ps] p by simp
  qed
  then have "step upd ps ?h2 = ?h2" by (rule step_without_gradients)
  then show ?thesis by (simp add: backward_data zero_grad_data)
qed

lemma module_params_data:
  assumes e: "map data (tensors h') = map data (tensors h)"
    and r: "list_all (\<lambda>e. snd e < length (tensors h)) m"
  shows "module_params h' m = module_params h m"
proof -
  from e have l: "length (tensors h') = length (tensors h)" by (metis length_map)
  have "\<And>k p. (k, p) \<in> set m \<Longrightarrow> data (tensors h' ! p) = data (tensors h ! p)"
  proof -
    fix k p
    assume "(k, p) \<in> set m"
    with r have "p < length (tensors h)" by (auto simp: list_all_iff)
    then show "data (tensors h' ! p) = data (tensors h ! p)" using e l by (metis nth_map)
  qed
  then show ?thesis by (auto simp: module_params_def)
qed

lemma train_agent_heap:
  assumes "train_agent net gradient upd b reward_clip a h = Inr (loss, h')"
  shows "\<exists>g. h' = step upd (optimizer a) (backward g (model a) (zero_grad (optimizer a) h))"
  using assms
  by (auto simp: train_agent_def Let_def split: sum.splits if_splits option.splits)

lemma train_agent_frozen:
  assumes dis: "set (optimizer a) \<inter> snd ` set (model a) = {}"
    and r: "train_agent net gradient upd b reward_clip a h = Inr (loss, h')"
  shows "map data (tensors h') = map data (tensors h)"
proof -
  from train_agent_heap [OF r] obtain g where
    "h' = step upd (optimizer a) (backward g (model a) (zero_grad (optimizer a) h))"
    by blast
  then show ?thesis using optimizer_round_frozen [OF dis] by simp
qed

lemma new_parameters_addrs:
  assumes "new_parameters init h = (m, h')"
  shows "map snd m = [length (tensors h)..<length (tensors h) + length init]"
    and "length (tensors h') = length (tensors h) + length init"
  using assms by (auto simp: new_parameters_def)

lemma agent_model_facts:
  assumes "agent_model init a h = (m, a', h')"
  shows "\<exists>k. map snd m = [length (tensors h)..<length (tensors h) + k]
           \<and> length (tensors h') = length (tensors h) + k"
    and "optimizer a' = map snd m"
    and "use_target_net a' = use_target_net a"
    and "model a' = model a"
proof -
  obtain m0 h0 where n: "new_parameters (zip DeepQCNN_keys init) h = (m0, h0)"
    by (cases "new_parameters (zip DeepQCNN_keys init) h") auto
  with assms have e: "m = m0" "h' = h0" "a' = a\<lparr>optimizer := map snd m0\<rparr>"
    by (auto simp: agent_model_def DeepQCNN_def)
  from new_parameters_addrs [OF n] e
  show "\<exists>k. map snd m = [length (tensors h)..<length (tensors h) + k]
           \<and> length (tensors h') = length (tensors h) + k"
    by blast
  from e show "optimizer a' = map snd m" by simp
  from e show "use_target_net a' = use_target_net a" by simp
  from e show "model a' = model a" by simp
qed

lemma reset_models_binds_target:
  assumes u: "use_target_net a0"
    and r: "reset_models init_model init_target a0 h0 = Inr (a, h)"
  shows "set (optimizer a) \<inter> snd ` set (model a) = {}"
    and "list_all (\<lambda>e. snd e < length (tensors h)) (model a)"
    and "\<exists>t. target_net a = Some t \<and> optimizer a = map snd t"
proof -
  obtain m a1 h1 where am1: "agent_model init_model a0 h0 = (m, a1, h1)"
    by (cases "agent_model init_model a0 h0") auto
  obtain t a2 h2 where am2: "agent_model init_target (a1\<lparr>model := m\<rparr>) h1 = (t, a2, h2)"
    by (cases "agent_model init_target (a1\<lparr>model := m\<rparr>) h1") auto
  from agent_model_facts [OF am1] u obtain k1 where
    m: "map snd m = [length (tensors h0)..<length (tensors h0) + k1]"
    and l1: "length (tensors h1) = length (tensors h0) + k1"
    and u1: "use_target_net a1"
    by auto
  from agent_model_facts [OF am2] obtain k2 where
    t: "map snd t = [length (tensors h1)..<length (tensors h1) + k2]"
    and l2: "length (tensors h2) = length (tensors h1) + k2"
    and o2: "optimizer a2 = map snd t"
    and m2: "model a2 = m"
    by auto
  from r am1 am2 u1 obtain h3 where
    up: "update_target_net (a2\<lparr>target_net := Some t\<rparr>) h2 = Inr h3"
    and a: "a = a2\<lparr>target_net := Some t\<rparr>" and h: "h = h3"
    by (auto simp: reset_models_def split: sum.splits)
  from update_target_net_tensors [OF up] h have th: "tensors h = tensors h2" by simp
  from a m2 have ma: "model a = m" by simp
  from a o2 have oa: "optimizer a = map snd t" by simp
  have sm: "snd ` set (model a) = {length (tensors h0)..<length (tensors h0) + k1}"
    unfolding ma using m by (metis set_map set_upt)
  have so: "set (optimizer a) = {length (tensors h1)..<length (tensors h1) + k2}"
    unfolding oa t by simp
  show "set (optimizer a) \<inter> snd ` set (model a) = {}"
    unfolding sm so l1 by auto
  have "\<forall>e \<in> set (model a). snd e < length (tensors h)"
  proof
    fix e
    assume "e \<in> set (model a)"
    then have "snd e \<in> snd ` set (model a)" by simp
    then show "snd e < length (tensors h)" unfolding sm th l2 l1 by simp
  qed
  then show "list_all (\<lambda>e. snd e < length (tensors h)) (model a)" by (simp add: list_all_iff)
  from a oa show "\<exists>t. target_net a = Some t \<and> optimizer a = map snd t" by simp
qed

lemma example_reset:
  "reset_models (replicate 10 [Fin 1]) (replicate 10 [Fin 2]) example_dqn0 \<lparr>tensors = [], dicts = []\<rparr>
     = Inr (example_trained_agent, example_trained_heap)"
  by code_simp

lemma example_train:
  "train_agent example_net example_gradient example_rule example_sample False
      example_trained_agent example_trained_heap
     = Inr (Fin (37 / 100), example_heap_after)"
  by code_simp

lemma example_params_before:
  "module_params example_trained_heap (model example_trained_agent)
     = zip DeepQCNN_keys (replicate 10 [Fin 1])"
  by code_simp

lemma example_params_after:
  "module_params example_heap_after (model example_trained_agent)
     = zip DeepQCNN_keys (replicate 10 [Fin 1])"
  by code_simp

lemma example_step_would_change:
  "example_rule [Fin 1] (example_gradient ps x t ''conv1.weight'') = [Fin (1999 / 2000)]"
  by (simp add: example_rule_def example_gradient_def fl_sub_def)

lemma train_agent_after_reset:
  assumes u: "use_target_net a0"
    and r: "reset_models init_model init_target a0 h0 = Inr (a, h)"
    and tr: "train_agent net gradient upd b reward_clip a h = Inr (loss, h')"
  shows "map data (tensors h') = map data (tensors h)"
    and "module_params h' (model a) = module_params h (model a)"
proof -
  from reset_models_binds_target(1) [OF u r] tr
  show d: "map data (tensors h') = map data (tensors h)" by (rule train_agent_frozen)
  from d reset_models_binds_target(2) [OF u r]
  show "module_params h' (model a) = module_params h (model a)" by (rule module_params_data)
qed

text \<open>
  Claim C2. With a target network, \<open>train_agent\<close> updates no parameter at all.
  \<open>reset_models\<close> calls \<open>_agent_model\<close> twice, and the second call rebinds
  \<open>self.optimizer\<close> to the parameters of the target network; the backward pass gives
  gradients to the parameters of \<open>self._model\<close> only, so \<open>self.optimizer.step()\<close> finds
  no gradient and skips every parameter (lemma \<open>train_agent_after_reset\<close>). In this run
  the loss is \<open>0.37\<close>, every model parameter has the gradient \<open>1\<close>, a step would turn
  the parameter \<open>1\<close> into \<open>0.9995\<close>, and the model's parameters after the call are those
  before it.
\<close>

theorem train_agent_steps_target_optimizer:
  "reset_models (replicate 10 [Fin 1]) (replicate 10 [Fin 2]) example_dqn0 \<lparr>tensors = [], dicts = []\<rparr>
     = Inr (example_trained_agent, example_trained_heap)
   \<and> train_agent example_net example_gradient example_rule example_sample False
        example_trained_agent example_trained_heap
     = Inr (Fin (37 / 100), example_heap_after)
   \<and> map grad (tensors example_heap_after) = replicate 10 (Some [Fin 1]) @ replicate 10 None
   \<and> example_rule [Fin 1] [Fin 1] = [Fin (1999 / 2000)]
   \<and> module_params example_heap_after (model example_trained_agent)
     = module_params example_trained_heap (model example_trained_agent)"
proof -
  have g: "map grad (tensors example_heap_after) = replicate 10 (Some [Fin 1]) @ replicate 10 None"
    by (simp add: example_heap_after_def)
  have s: "example_rule [Fin 1] [Fin 1] = [Fin (1999 / 2000)]"
    by (simp add: example_rule_def fl_sub_def)
  from example_reset example_train g s example_params_before example_params_after
  show ?thesis by simp
qed

end
